theory Spec2Isabelle
  imports Complex_Main
begin

section \<open>Swing-trade trendline backtester: extrema, trend state, simulator, sweep\<close>

text \<open>
  Shallow embedding of \<^verbatim>\<open>explore_swingtradetitanium.py\<close>.  Python floats are modelled as
  \<^typ>\<open>real\<close>; the float NaN that the program uses for "no line" is \<^term>\<open>None\<close> of an option
  type, and the float minus infinity of the sweep is a constructor of its own.  Every raise
  of the program is a value \<^term>\<open>Inl e\<close>.
\<close>

datatype error = ValueError | IndexError | KeyError | TypeError

subsection \<open>Peak finding (the library routine called by \<^verbatim>\<open>detect_local_extrema\<close>)\<close>

text \<open>
  \<^verbatim>\<open>scipy.signal.find_peaks(x, distance=d, prominence=p)\<close> is a library routine; the repository
  calls it and does not contain it.  It is written here after the library's algorithm: the
  strict local maxima (a flat top counts once, at its middle; the first and the last sample
  never count), then the distance selection (peaks are visited from the highest down, peaks
  of equal height from the right, each kept peak removing the peaks closer than \<open>d\<close>
  samples), then the prominence threshold.
\<close>

function skip_plateau :: "real list \<Rightarrow> nat \<Rightarrow> nat \<Rightarrow> nat" where
  "skip_plateau x i i_ahead =
     (if i_ahead < length x - 1 \<and> x ! i_ahead = x ! i
      then skip_plateau x i (Suc i_ahead) else i_ahead)"
  by pat_completeness auto
termination
  by (relation "measure (\<lambda>(x, i, i_ahead). length x - i_ahead)") auto

declare skip_plateau.simps [simp del]

lemma skip_plateau_ge: "i_ahead \<le> skip_plateau x i i_ahead"
proof (induction x i i_ahead rule: skip_plateau.induct)
  case (1 x i i_ahead)
  show ?case
  proof (cases "i_ahead < length x - 1 \<and> x ! i_ahead = x ! i")
    case True
    with "1" have "Suc i_ahead \<le> skip_plateau x i (Suc i_ahead)" by blast
    with True show ?thesis by (subst skip_plateau.simps) simp
  next
    case False
    then show ?thesis by (subst skip_plateau.simps) auto
  qed
qed

function local_maxima_from :: "real list \<Rightarrow> nat \<Rightarrow> nat list" where
  "local_maxima_from x i =
     (if i < length x - 1 then
        (if x ! (i - 1) < x ! i then
           (if x ! (skip_plateau x i (Suc i)) < x ! i
            then ((i + (skip_plateau x i (Suc i) - 1)) div 2)
                   # local_maxima_from x (Suc (skip_plateau x i (Suc i)))
            else local_maxima_from x (Suc i))
         else local_maxima_from x (Suc i))
      else [])"
  by pat_completeness auto
termination
proof (relation "measure (\<lambda>(x, i). length x - i)", goal_cases)
  case 1
  show ?case by simp
next
  case (2 x i)
  have "Suc i \<le> skip_plateau x i (Suc i)" by (rule skip_plateau_ge)
  with 2 show ?case by simp
next
  case (3 x i)
  then show ?case by simp
next
  case (4 x i)
  then show ?case by simp
qed

declare local_maxima_from.simps [simp del]

definition local_maxima_1d :: "real list \<Rightarrow> nat list" where
  "local_maxima_1d x = local_maxima_from x 1"

definition suppress_near :: "nat list \<Rightarrow> int \<Rightarrow> nat \<Rightarrow> bool list \<Rightarrow> bool list" where
  "suppress_near peaks distance j keep =
     (if \<not> keep ! j then keep
      else map (\<lambda>k. if k \<noteq> j \<and> \<bar>int (peaks ! k) - int (peaks ! j)\<bar> < distance
                     then False else keep ! k) [0..<length peaks])"

definition select_by_peak_distance :: "nat list \<Rightarrow> real list \<Rightarrow> int \<Rightarrow> bool list" where
  "select_by_peak_distance peaks priority distance =
     fold (suppress_near peaks distance)
          (rev (sort_key (\<lambda>j. priority ! j) [0..<length peaks]))
          (replicate (length peaks) True)"

fun list_min :: "real list \<Rightarrow> real" where
  "list_min [] = 0"
| "list_min (v # vs) = fold min vs v"

definition peak_prominence :: "real list \<Rightarrow> nat \<Rightarrow> real" where
  "peak_prominence x peak =
     x ! peak - max (list_min (takeWhile (\<lambda>v. v \<le> x ! peak) (rev (take (Suc peak) x))))
                    (list_min (takeWhile (\<lambda>v. v \<le> x ! peak) (drop peak x)))"

definition find_peaks :: "real list \<Rightarrow> int \<Rightarrow> real \<Rightarrow> error + nat list" where
  "find_peaks x distance prominence =
     (if distance < 1 then Inl ValueError
      else
        let peaks = local_maxima_1d x;
            keep = select_by_peak_distance peaks (map (\<lambda>p. x ! p) peaks) distance;
            peaks = map fst (filter snd (zip peaks keep))
        in Inr (filter (\<lambda>p. prominence \<le> peak_prominence x p) peaks))"

subsection \<open>Extremum detection\<close>

definition detect_local_extrema :: "real list \<Rightarrow> int \<Rightarrow> real \<Rightarrow> error + (nat list \<times> nat list)" where
  "detect_local_extrema series order prominence =
     (case find_peaks series order prominence of
        Inl e \<Rightarrow> Inl e
      | Inr peaks \<Rightarrow>
          (case find_peaks (map uminus series) order prominence of
             Inl e \<Rightarrow> Inl e
           | Inr troughs \<Rightarrow> Inr (troughs, peaks)))"

subsection \<open>Bars and time coordinates\<close>

text \<open>
  The data frame is a list of bars.  Only the index (a timestamp) and the \<^verbatim>\<open>Close\<close> column are
  read by the strategy.  A timestamp is used through \<^verbatim>\<open>toordinal()\<close> and \<^verbatim>\<open>hour\<close> only.
\<close>

record timestamp =
  ordinal :: int
  hour :: nat

record bar =
  date :: timestamp
  Close :: real

definition time_coord :: "timestamp \<Rightarrow> real" where
  "time_coord dt = real_of_int (ordinal dt) + real (hour dt) / 24"

subsection \<open>Trendline fitting\<close>

text \<open>
  \<^verbatim>\<open>RANSACRegressor(LinearRegression(), min_samples, residual_threshold).fit(X, y)\<close> is a
  library routine that draws random subsets.  The regressor is a parameter: it receives
  \<open>min_samples\<close>, \<open>residual_threshold\<close>, \<open>X\<close> and \<open>y\<close> and returns the coefficient and the
  intercept of its final estimator, or raises.  Its \<^verbatim>\<open>predict\<close> is the line of that estimator.
\<close>

type_synonym regressor = "nat \<Rightarrow> real \<Rightarrow> real list \<Rightarrow> real list \<Rightarrow> error + real \<times> real"

record trend_info =
  slope :: real
  intercept :: "real option"
  model :: "(real \<times> real) option"
  used_points :: "nat list"

definition np_std :: "real list \<Rightarrow> real" where
  "np_std y =
     (let mean = sum_list y / real (length y)
      in sqrt (sum_list (map (\<lambda>v. (v - mean)\<^sup>2) y) / real (length y)))"

definition fit_trendline_ransac ::
  "regressor \<Rightarrow> real list \<Rightarrow> real list \<Rightarrow> error + real \<times> real \<times> (real \<times> real)" where
  "fit_trendline_ransac ransac x y =
     (if length x < 2 then Inl ValueError
      else
        (case ransac (max 2 (nat \<lfloor>real (length x) * 3 / 10\<rfloor>)) (np_std y * 3 / 2) x y of
           Inl e \<Rightarrow> Inl e
         | Inr (m, b) \<Rightarrow> Inr (m, b, (m, b))))"

definition no_trendline :: "nat list \<Rightarrow> trend_info" where
  "no_trendline pts = \<lparr>slope = 0, intercept = None, model = None, used_points = pts\<rparr>"

definition trendline_from_extrema ::
  "regressor \<Rightarrow> timestamp list \<Rightarrow> real list \<Rightarrow> nat list \<Rightarrow> error + trend_info" where
  "trendline_from_extrema ransac dates prices extrema_idx =
     (if length extrema_idx < 2 then
        (case extrema_idx of
           [] \<Rightarrow> Inr (no_trendline extrema_idx)
         | j # _ \<Rightarrow>
             if j < length prices
             then Inr \<lparr>slope = 0, intercept = Some (prices ! j), model = None,
                       used_points = extrema_idx\<rparr>
             else Inl IndexError)
      else if \<exists>j \<in> set extrema_idx. length dates \<le> j \<or> length prices \<le> j then Inl IndexError
      else
        (case fit_trendline_ransac ransac
                (map (\<lambda>j. time_coord (dates ! j)) extrema_idx)
                (map (\<lambda>j. prices ! j) extrema_idx) of
           Inl e \<Rightarrow> Inl e
         | Inr (m, b, mdl) \<Rightarrow>
             Inr \<lparr>slope = m, intercept = Some b, model = Some mdl,
                  used_points = extrema_idx\<rparr>))"

definition line_value_at :: "trend_info \<Rightarrow> timestamp \<Rightarrow> real option" where
  "line_value_at model_info dt =
     (case model model_info of
        None \<Rightarrow> None
      | Some (m, b) \<Rightarrow> Some (m * time_coord dt + b))"

subsection \<open>Signal logic\<close>

definition is_touching_line :: "real \<Rightarrow> real option \<Rightarrow> real \<Rightarrow> bool" where
  "is_touching_line price line_price tolerance =
     (case line_price of
        None \<Rightarrow> False
      | Some l \<Rightarrow> \<bar>price - l\<bar> \<le> tolerance * l)"

subsection \<open>The backtester\<close>

datatype trend = Uptrend | Downtrend

datatype line_side = Support | Resistance

datatype trade_type = buy | sell_short | exit_long | exit_short

record trade =
  t_date :: timestamp
  t_type :: trade_type
  t_price :: real
  t_size :: "real option"
  t_pnl :: "real option"

record params =
  order :: int
  prominence :: real
  rebalance_bars :: int
  touch_tolerance :: real
  min_points_for_trend :: int

record sim_state =
  position :: int
  entry_price :: real
  cash :: real
  position_size :: real
  equity :: "real list"
  trades :: "trade list"
  active_trend :: "trend option"
  active_trend_info :: trend_info
  last_trend :: "trend option"
  trend_switches :: "(timestamp \<times> trend option) list"

definition init_state :: sim_state where
  "init_state =
     \<lparr>position = 0, entry_price = 0, cash = 100000, position_size = 0, equity = [],
      trades = [], active_trend = None, active_trend_info = no_trendline [],
      last_trend = None, trend_switches = []\<rparr>"

text \<open>
  The first half of the loop body: extrema of the trailing window, the two candidate lines
  and whether each qualifies.  \<open>regs i side\<close> is the regressor built at bar \<open>i\<close> for that
  side (each call builds a fresh one, with its own random draws).
\<close>

definition trend_candidates ::
  "(nat \<Rightarrow> line_side \<Rightarrow> regressor) \<Rightarrow> params \<Rightarrow> bar list \<Rightarrow> nat
     \<Rightarrow> error + trend_info \<times> trend_info \<times> bool \<times> bool" where
  "trend_candidates regs p df i =
     (let prices = map Close df;
          dates = map date df;
          window = rebalance_bars p * 6;
          start_idx = nat (max 0 (int i - window));
          sub_prices = take (Suc i - start_idx) (drop start_idx prices)
      in
        case detect_local_extrema sub_prices (order p) (prominence p) of
          Inl e \<Rightarrow> Inl e
        | Inr (troughs, peaks) \<Rightarrow>
            let troughs_full = map (\<lambda>t. start_idx + t) troughs;
                peaks_full = map (\<lambda>t. start_idx + t) peaks
            in
              case (if min_points_for_trend p \<le> int (length troughs_full)
                    then trendline_from_extrema (regs i Support) dates prices troughs_full
                    else Inr (no_trendline troughs_full)) of
                Inl e \<Rightarrow> Inl e
              | Inr support_info \<Rightarrow>
                  (case (if min_points_for_trend p \<le> int (length peaks_full)
                         then trendline_from_extrema (regs i Resistance) dates prices peaks_full
                         else Inr (no_trendline peaks_full)) of
                     Inl e \<Rightarrow> Inl e
                   | Inr resistance_info \<Rightarrow>
                       Inr (support_info, resistance_info,
                            0 < slope support_info
                              \<and> min_points_for_trend p \<le> int (length (used_points support_info)),
                            slope resistance_info < 0
                              \<and> min_points_for_trend p
                                    \<le> int (length (used_points resistance_info)))))"

definition update_trend ::
  "timestamp \<Rightarrow> trend_info \<Rightarrow> trend_info \<Rightarrow> bool \<Rightarrow> bool \<Rightarrow> sim_state \<Rightarrow> sim_state" where
  "update_trend cur_date support_info resistance_info uptrend downtrend s =
     (let s1 =
            (if uptrend \<and> \<not> downtrend
             then s\<lparr>active_trend := Some Uptrend, active_trend_info := support_info\<rparr>
             else if downtrend \<and> \<not> uptrend
             then s\<lparr>active_trend := Some Downtrend, active_trend_info := resistance_info\<rparr>
             else s\<lparr>active_trend := last_trend s,
                     active_trend_info :=
                       (if last_trend s \<noteq> None then active_trend_info s
                        else no_trendline [])\<rparr>);
          s2 =
            (if active_trend s1 \<noteq> last_trend s1
             then s1\<lparr>trend_switches := trend_switches s1 @ [(cur_date, active_trend s1)]\<rparr>
             else s1)
      in s2\<lparr>last_trend := active_trend s2\<rparr>)"

definition crosses_below :: "real \<Rightarrow> real option \<Rightarrow> bool" where
  "crosses_below cur_price trendline_price =
     (case trendline_price of None \<Rightarrow> False | Some l \<Rightarrow> cur_price < l)"

definition crosses_above :: "real \<Rightarrow> real option \<Rightarrow> bool" where
  "crosses_above cur_price trendline_price =
     (case trendline_price of None \<Rightarrow> False | Some l \<Rightarrow> l < cur_price)"

definition entry_exit :: "real \<Rightarrow> timestamp \<Rightarrow> real \<Rightarrow> real option \<Rightarrow> sim_state \<Rightarrow> sim_state" where
  "entry_exit tolerance cur_date cur_price trendline_price s =
     (if position s = 0 then
        (if active_trend s = Some Uptrend \<and> is_touching_line cur_price trendline_price tolerance
         then s\<lparr>position := 1, entry_price := cur_price, position_size := cash s, cash := 0,
                 trades := trades s @
                   [\<lparr>t_date = cur_date, t_type = buy, t_price = cur_price,
                     t_size = Some (cash s), t_pnl = None\<rparr>]\<rparr>
         else if active_trend s = Some Downtrend
                   \<and> is_touching_line cur_price trendline_price tolerance
         then s\<lparr>position := - 1, entry_price := cur_price, position_size := cash s, cash := 0,
                 trades := trades s @
                   [\<lparr>t_date = cur_date, t_type = sell_short, t_price = cur_price,
                     t_size = Some (cash s), t_pnl = None\<rparr>]\<rparr>
         else s)
      else if position s = 1 then
        (if crosses_below cur_price trendline_price
         then
           (let pnl = (cur_price - entry_price s) / entry_price s * position_size s
            in s\<lparr>cash := position_size s + pnl,
                   trades := trades s @
                     [\<lparr>t_date = cur_date, t_type = exit_long, t_price = cur_price,
                       t_size = None, t_pnl = Some pnl\<rparr>],
                   position := 0, entry_price := 0, position_size := 0\<rparr>)
         else s)
      else if position s = - 1 then
        (if crosses_above cur_price trendline_price
         then
           (let pnl = (entry_price s - cur_price) / entry_price s * position_size s
            in s\<lparr>cash := position_size s + pnl,
                   trades := trades s @
                     [\<lparr>t_date = cur_date, t_type = exit_short, t_price = cur_price,
                       t_size = None, t_pnl = Some pnl\<rparr>],
                   position := 0, entry_price := 0, position_size := 0\<rparr>)
         else s)
      else s)"

definition mark_to_market :: "real \<Rightarrow> sim_state \<Rightarrow> real" where
  "mark_to_market cur_price s =
     (if position s = 0 then cash s
      else if position s = 1 then position_size s * (cur_price / entry_price s)
      else position_size s * (entry_price s / cur_price))"

definition trade_step :: "real \<Rightarrow> timestamp \<Rightarrow> real \<Rightarrow> real option \<Rightarrow> sim_state \<Rightarrow> sim_state" where
  "trade_step tolerance cur_date cur_price trendline_price s =
     (let s1 = entry_exit tolerance cur_date cur_price trendline_price s
      in s1\<lparr>equity := equity s1 @ [mark_to_market cur_price s1]\<rparr>)"

definition trendline_price_at :: "sim_state \<Rightarrow> timestamp \<Rightarrow> real option" where
  "trendline_price_at s cur_date =
     (if model (active_trend_info s) \<noteq> None
      then line_value_at (active_trend_info s) cur_date else None)"

definition bar_step ::
  "(nat \<Rightarrow> line_side \<Rightarrow> regressor) \<Rightarrow> params \<Rightarrow> bar list \<Rightarrow> nat \<Rightarrow> sim_state
     \<Rightarrow> error + sim_state" where
  "bar_step regs p df i s =
     (case trend_candidates regs p df i of
        Inl e \<Rightarrow> Inl e
      | Inr (support_info, resistance_info, uptrend, downtrend) \<Rightarrow>
          if length df \<le> i then Inl IndexError
          else
            let cur_price = Close (df ! i);
                cur_date = date (df ! i);
                s1 = update_trend cur_date support_info resistance_info uptrend downtrend s
            in Inr (trade_step (touch_tolerance p) cur_date cur_price
                      (trendline_price_at s1 cur_date) s1))"

text \<open>
  \<open>run_loop regs p df k\<close> is the state after the first \<open>k\<close> iterations of the loop.  The
  loop of the program stops after \<open>length df\<close> iterations; a further one would read
  \<^verbatim>\<open>dates[i]\<close> and \<^verbatim>\<open>prices.iloc[i]\<close> out of range.
\<close>

fun run_loop ::
  "(nat \<Rightarrow> line_side \<Rightarrow> regressor) \<Rightarrow> params \<Rightarrow> bar list \<Rightarrow> nat \<Rightarrow> error + sim_state" where
  "run_loop regs p df 0 = Inr init_state"
| "run_loop regs p df (Suc k) =
     (case run_loop regs p df k of
        Inl e \<Rightarrow> Inl e
      | Inr s \<Rightarrow> bar_step regs p df k s)"

text \<open>
  After the loop the trade list becomes a data frame and \<^verbatim>\<open>set_index("date")\<close> is called on
  it; a frame built from an empty list has no column, and the call raises KeyError.
\<close>

definition backtest_trendline_strategy ::
  "(nat \<Rightarrow> line_side \<Rightarrow> regressor) \<Rightarrow> bar list \<Rightarrow> params
     \<Rightarrow> error + real list \<times> trade list \<times> trend_info \<times> (timestamp \<times> trend option) list" where
  "backtest_trendline_strategy regs df p =
     (case run_loop regs p df (length df) of
        Inl e \<Rightarrow> Inl e
      | Inr s \<Rightarrow>
          if trades s = [] then Inl KeyError
          else Inr (equity s, trades s, active_trend_info s, trend_switches s))"

subsection \<open>The parameter sweep\<close>

text \<open>A float that may be minus infinity, with Python's \<^verbatim>\<open>>\<close> on it.\<close>

datatype score = NegInf | Fin real

fun score_gt :: "score \<Rightarrow> score \<Rightarrow> bool" where
  "score_gt NegInf _ = False"
| "score_gt (Fin a) NegInf = True"
| "score_gt (Fin a) (Fin b) = (b < a)"

definition median :: "real list \<Rightarrow> real" where
  "median vs =
     (let srt = sort vs; n = length srt
      in if odd n then srt ! (n div 2)
         else (srt ! (n div 2 - 1) + srt ! (n div 2)) / 2)"

text \<open>
  The data frame of trades has a \<^verbatim>\<open>pnl\<close> column exactly when some trade is an exit; the
  median skips the rows without a value.
\<close>

definition median_pnl_of :: "trade list \<Rightarrow> score" where
  "median_pnl_of trs =
     (if \<exists>t \<in> set trs. t_pnl t \<noteq> None then Fin (median (List.map_filter t_pnl trs))
      else NegInf)"

definition run_backtest_combo ::
  "(nat \<Rightarrow> line_side \<Rightarrow> regressor) \<Rightarrow> params \<Rightarrow> bar list \<Rightarrow> error + params \<times> score \<times> real" where
  "run_backtest_combo regs combo df =
     (case backtest_trendline_strategy regs df combo of
        Inl e \<Rightarrow> Inl e
      | Inr (result, trs, _, _) \<Rightarrow>
          if result = [] then Inl IndexError
          else Inr (combo, median_pnl_of trs, last result))"

record leaderboard =
  best_median :: "score option"
  best_median_params :: "params option"
  best_equity :: "real option"
  best_equity_params :: "params option"
  best_median_val :: score
  best_equity_val :: score

definition init_board :: leaderboard where
  "init_board =
     \<lparr>best_median = None, best_median_params = None, best_equity = None,
      best_equity_params = None, best_median_val = NegInf, best_equity_val = NegInf\<rparr>"

definition rank_step :: "leaderboard \<Rightarrow> params \<times> score \<times> real \<Rightarrow> leaderboard" where
  "rank_step lb r =
     (case r of (combo, median_pnl, final_equity) \<Rightarrow>
        let lb1 =
              (if score_gt median_pnl (best_median_val lb)
               then lb\<lparr>best_median_val := median_pnl, best_median := Some median_pnl,
                       best_median_params := Some combo\<rparr>
               else lb)
        in if score_gt (Fin final_equity) (best_equity_val lb1)
           then lb1\<lparr>best_equity_val := Fin final_equity, best_equity := Some final_equity,
                    best_equity_params := Some combo\<rparr>
           else lb1)"

definition find_best :: "(params \<times> score \<times> real) list \<Rightarrow> leaderboard" where
  "find_best results = foldl rank_step init_board results"

fun gather :: "(error + 'a) list \<Rightarrow> error + 'a list" where
  "gather [] = Inr []"
| "gather (r # rs) =
     (case r of
        Inl e \<Rightarrow> Inl e
      | Inr v \<Rightarrow> (case gather rs of Inl e \<Rightarrow> Inl e | Inr vs \<Rightarrow> Inr (v # vs)))"

text \<open>
  The grid search of the script: \<open>completed\<close> is the grid in the order in which the workers
  finish, \<open>regs_of c\<close> the regressors of the worker that runs \<open>c\<close>.  A worker's exception is
  raised again when its result is read.  After the ranking both winners are printed with
  the format \<^verbatim>\<open>:.2f\<close>, which raises TypeError on \<^verbatim>\<open>None\<close>.
\<close>

definition grid_search ::
  "(params \<Rightarrow> nat \<Rightarrow> line_side \<Rightarrow> regressor) \<Rightarrow> bar list \<Rightarrow> params list \<Rightarrow> error + leaderboard" where
  "grid_search regs_of df completed =
     (case gather (map (\<lambda>combo. run_backtest_combo (regs_of combo) combo df) completed) of
        Inl e \<Rightarrow> Inl e
      | Inr results \<Rightarrow>
          let lb = find_best results
          in if best_median lb = None \<or> best_equity lb = None then Inl TypeError
             else Inr lb)"

subsection \<open>A regressor for concrete runs\<close>

text \<open>
  When every point is an inlier of the consensus set the regressor's final estimator is the
  ordinary least-squares line through all points; through two points (where the sample is
  both of them) it is the line that joins them.
\<close>

definition least_squares :: regressor where
  "least_squares min_samples residual_threshold X y =
     (let n = real (length X);
          mx = sum_list X / n;
          my = sum_list y / n;
          m = sum_list (map (\<lambda>(u, v). (u - mx) * (v - my)) (zip X y))
                / sum_list (map (\<lambda>u. (u - mx)\<^sup>2) X)
      in Inr (m, my - m * mx))"

subsection \<open>Invariants and side conditions used in the statements\<close>

text \<open>
  After every bar \<open>last_trend\<close> is the active trend, and while no trend has been set the
  active line is the empty one.
\<close>

definition trend_inv :: "sim_state \<Rightarrow> bool" where
  "trend_inv s \<longleftrightarrow> last_trend s = active_trend s
       \<and> (active_trend s = None \<longrightarrow> active_trend_info s = no_trendline [])"

text \<open>
  The position is flat, long or short, and a flat position has no notional.
\<close>

definition book_inv :: "sim_state \<Rightarrow> bool" where
  "book_inv s \<longleftrightarrow>
     (position s = 0 \<or> position s = 1 \<or> position s = - 1)
     \<and> (position s = 0 \<longrightarrow> position_size s = 0)"

text \<open>
  A short that is covered at price \<open>c\<close> returns \<open>n + (e - c) / e * n = n * (2 - c / e)\<close> to
  cash, which is negative when \<open>c\<close> is above twice the entry price \<open>e\<close>.  The two predicates
  say that a run never covers a short above (at or above) twice its entry price.
\<close>

definition short_exits_within ::
  "(nat \<Rightarrow> line_side \<Rightarrow> regressor) \<Rightarrow> params \<Rightarrow> bar list \<Rightarrow> bool" where
  "short_exits_within regs p df \<longleftrightarrow>
     (\<forall>k < length df.
        case run_loop regs p df k of
          Inl _ \<Rightarrow> True
        | Inr s \<Rightarrow>
            (case bar_step regs p df k s of
               Inl _ \<Rightarrow> True
             | Inr s' \<Rightarrow>
                 position s = - 1 \<and> position s' = 0 \<longrightarrow> Close (df ! k) \<le> 2 * entry_price s))"

definition short_exits_below ::
  "(nat \<Rightarrow> line_side \<Rightarrow> regressor) \<Rightarrow> params \<Rightarrow> bar list \<Rightarrow> bool" where
  "short_exits_below regs p df \<longleftrightarrow>
     (\<forall>k < length df.
        case run_loop regs p df k of
          Inl _ \<Rightarrow> True
        | Inr s \<Rightarrow>
            (case bar_step regs p df k s of
               Inl _ \<Rightarrow> True
             | Inr s' \<Rightarrow>
                 position s = - 1 \<and> position s' = 0 \<longrightarrow> Close (df ! k) < 2 * entry_price s))"

definition solvent :: "sim_state \<Rightarrow> bool" where
  "solvent s \<longleftrightarrow>
     (position s = 0 \<longrightarrow> 0 \<le> cash s)
     \<and> (position s \<noteq> 0 \<longrightarrow> 0 \<le> position_size s \<and> 0 < entry_price s)
     \<and> (\<forall>e \<in> set (equity s). 0 \<le> e)"

definition funded :: "sim_state \<Rightarrow> bool" where
  "funded s \<longleftrightarrow>
     (position s = 0 \<longrightarrow> 0 < cash s)
     \<and> (position s \<noteq> 0 \<longrightarrow> 0 < position_size s \<and> 0 < entry_price s)"

subsection \<open>Two concrete runs\<close>

text \<open>
  Seven daily bars that share their first five closes: a calm continuation and a spike.
  The combinations differ in the touch tolerance only.  The regressor takes every point as
  an inlier, at every bar and on both sides.  The states are those of the runs:
  \<open>idle\<close> before any trend is set, \<open>armed\<close> after the trend update of a bar and before its
  trade step, \<open>watch\<close> for the tolerance 1/200, the others for the tolerance 1/50.
\<close>

definition bar_at :: "int \<Rightarrow> real \<Rightarrow> bar" where
  "bar_at d c = \<lparr>date = \<lparr>ordinal = d, hour = 0\<rparr>, Close = c\<rparr>"

definition calm_bars :: "bar list" where
  "calm_bars = [bar_at 1 10, bar_at 2 12, bar_at 3 10, bar_at 4 11, bar_at 5 (52/5),
                bar_at 6 (53/5), bar_at 7 (19/2)]"

definition spike_bars :: "bar list" where
  "spike_bars = [bar_at 1 10, bar_at 2 12, bar_at 3 10, bar_at 4 11, bar_at 5 (52/5),
                 bar_at 6 30, bar_at 7 11]"

definition grid_point :: "real \<Rightarrow> params" where
  "grid_point tol = \<lparr>order = 1, prominence = 0, rebalance_bars = 24,
                      touch_tolerance = tol, min_points_for_trend = 2\<rparr>"

definition all_inliers :: "nat \<Rightarrow> line_side \<Rightarrow> regressor" where
  "all_inliers i side = least_squares"

definition falling_line :: trend_info where
  "falling_line = \<lparr>slope = - 1/2, intercept = Some 13, model = Some (- 1/2, 13),
                    used_points = [1, 3]\<rparr>"

definition rising_line :: trend_info where
  "rising_line = \<lparr>slope = 1/5, intercept = Some (47/5), model = Some (1/5, 47/5),
                   used_points = [2, 4]\<rparr>"

definition idle :: "real list \<Rightarrow> sim_state" where
  "idle eq = init_state\<lparr>equity := eq\<rparr>"

definition armed_5 :: sim_state where
  "armed_5 =
     \<lparr>position = 0, entry_price = 0, cash = 100000, position_size = 0,
      equity = [100000, 100000, 100000, 100000],
      trades = [],
      active_trend = Some Downtrend, active_trend_info = falling_line,
      last_trend = Some Downtrend,
      trend_switches = [(\<lparr>ordinal = 5, hour = 0\<rparr>, Some Downtrend)]\<rparr>"

definition watch_5 :: sim_state where
  "watch_5 =
     \<lparr>position = 0, entry_price = 0, cash = 100000, position_size = 0,
      equity = [100000, 100000, 100000, 100000, 100000],
      trades = [],
      active_trend = Some Downtrend, active_trend_info = falling_line,
      last_trend = Some Downtrend,
      trend_switches = [(\<lparr>ordinal = 5, hour = 0\<rparr>, Some Downtrend)]\<rparr>"

definition watch_6 :: sim_state where
  "watch_6 =
     \<lparr>position = 0, entry_price = 0, cash = 100000, position_size = 0,
      equity = [100000, 100000, 100000, 100000, 100000, 100000],
      trades = [],
      active_trend = Some Downtrend, active_trend_info = falling_line,
      last_trend = Some Downtrend,
      trend_switches = [(\<lparr>ordinal = 5, hour = 0\<rparr>, Some Downtrend)]\<rparr>"

definition watch_7 :: sim_state where
  "watch_7 =
     \<lparr>position = - 1, entry_price = 19/2, cash = 0, position_size = 100000,
      equity = [100000, 100000, 100000, 100000, 100000, 100000, 100000],
      trades = [\<lparr>t_date = \<lparr>ordinal = 7, hour = 0\<rparr>, t_type = sell_short, t_price = 19/2,
                 t_size = Some 100000, t_pnl = None\<rparr>],
      active_trend = Some Downtrend, active_trend_info = falling_line,
      last_trend = Some Downtrend,
      trend_switches = [(\<lparr>ordinal = 5, hour = 0\<rparr>, Some Downtrend)]\<rparr>"

definition short_5 :: sim_state where
  "short_5 =
     \<lparr>position = - 1, entry_price = 52/5, cash = 0, position_size = 100000,
      equity = [100000, 100000, 100000, 100000, 100000],
      trades = [\<lparr>t_date = \<lparr>ordinal = 5, hour = 0\<rparr>, t_type = sell_short, t_price = 52/5,
                 t_size = Some 100000, t_pnl = None\<rparr>],
      active_trend = Some Downtrend, active_trend_info = falling_line,
      last_trend = Some Downtrend,
      trend_switches = [(\<lparr>ordinal = 5, hour = 0\<rparr>, Some Downtrend)]\<rparr>"

definition calm_6 :: sim_state where
  "calm_6 =
     \<lparr>position = 0, entry_price = 0, cash = 1275000/13, position_size = 0,
      equity = [100000, 100000, 100000, 100000, 100000, 1275000/13],
      trades = [\<lparr>t_date = \<lparr>ordinal = 5, hour = 0\<rparr>, t_type = sell_short, t_price = 52/5,
                 t_size = Some 100000, t_pnl = None\<rparr>,
                \<lparr>t_date = \<lparr>ordinal = 6, hour = 0\<rparr>, t_type = exit_short, t_price = 53/5,
                 t_size = None, t_pnl = Some (- 25000/13)\<rparr>],
      active_trend = Some Downtrend, active_trend_info = falling_line,
      last_trend = Some Downtrend,
      trend_switches = [(\<lparr>ordinal = 5, hour = 0\<rparr>, Some Downtrend)]\<rparr>"

definition calm_7 :: sim_state where
  "calm_7 =
     \<lparr>position = - 1, entry_price = 19/2, cash = 0, position_size = 1275000/13,
      equity = [100000, 100000, 100000, 100000, 100000, 1275000/13, 1275000/13],
      trades = [\<lparr>t_date = \<lparr>ordinal = 5, hour = 0\<rparr>, t_type = sell_short, t_price = 52/5,
                 t_size = Some 100000, t_pnl = None\<rparr>,
                \<lparr>t_date = \<lparr>ordinal = 6, hour = 0\<rparr>, t_type = exit_short, t_price = 53/5,
                 t_size = None, t_pnl = Some (- 25000/13)\<rparr>,
                \<lparr>t_date = \<lparr>ordinal = 7, hour = 0\<rparr>, t_type = sell_short, t_price = 19/2,
                 t_size = Some (1275000/13), t_pnl = None\<rparr>],
      active_trend = Some Downtrend, active_trend_info = falling_line,
      last_trend = Some Downtrend,
      trend_switches = [(\<lparr>ordinal = 5, hour = 0\<rparr>, Some Downtrend)]\<rparr>"

definition spike_6 :: sim_state where
  "spike_6 =
     \<lparr>position = 0, entry_price = 0, cash = - 1150000/13, position_size = 0,
      equity = [100000, 100000, 100000, 100000, 100000, - 1150000/13],
      trades = [\<lparr>t_date = \<lparr>ordinal = 5, hour = 0\<rparr>, t_type = sell_short, t_price = 52/5,
                 t_size = Some 100000, t_pnl = None\<rparr>,
                \<lparr>t_date = \<lparr>ordinal = 6, hour = 0\<rparr>, t_type = exit_short, t_price = 30,
                 t_size = None, t_pnl = Some (- 2450000/13)\<rparr>],
      active_trend = Some Downtrend, active_trend_info = falling_line,
      last_trend = Some Downtrend,
      trend_switches = [(\<lparr>ordinal = 5, hour = 0\<rparr>, Some Downtrend)]\<rparr>"

definition spike_7 :: sim_state where
  "spike_7 =
     \<lparr>position = 1, entry_price = 11, cash = 0, position_size = - 1150000/13,
      equity = [100000, 100000, 100000, 100000, 100000, - 1150000/13, - 1150000/13],
      trades = [\<lparr>t_date = \<lparr>ordinal = 5, hour = 0\<rparr>, t_type = sell_short, t_price = 52/5,
                 t_size = Some 100000, t_pnl = None\<rparr>,
                \<lparr>t_date = \<lparr>ordinal = 6, hour = 0\<rparr>, t_type = exit_short, t_price = 30,
                 t_size = None, t_pnl = Some (- 2450000/13)\<rparr>,
                \<lparr>t_date = \<lparr>ordinal = 7, hour = 0\<rparr>, t_type = buy, t_price = 11,
                 t_size = Some (- 1150000/13), t_pnl = None\<rparr>],
      active_trend = Some Uptrend, active_trend_info = rising_line,
      last_trend = Some Uptrend,
      trend_switches = [(\<lparr>ordinal = 5, hour = 0\<rparr>, Some Downtrend),
                        (\<lparr>ordinal = 7, hour = 0\<rparr>, Some Uptrend)]\<rparr>"

definition armed_spike :: sim_state where
  "armed_spike =
     \<lparr>position = 0, entry_price = 0, cash = - 1150000/13, position_size = 0,
      equity = [100000, 100000, 100000, 100000, 100000, - 1150000/13],
      trades = [\<lparr>t_date = \<lparr>ordinal = 5, hour = 0\<rparr>, t_type = sell_short, t_price = 52/5,
                 t_size = Some 100000, t_pnl = None\<rparr>,
                \<lparr>t_date = \<lparr>ordinal = 6, hour = 0\<rparr>, t_type = exit_short, t_price = 30,
                 t_size = None, t_pnl = Some (- 2450000/13)\<rparr>],
      active_trend = Some Uptrend, active_trend_info = rising_line,
      last_trend = Some Uptrend,
      trend_switches = [(\<lparr>ordinal = 5, hour = 0\<rparr>, Some Downtrend),
                        (\<lparr>ordinal = 7, hour = 0\<rparr>, Some Uptrend)]\<rparr>"

text \<open>Every worker of a sweep gets the same regressors.\<close>

definition same_draws :: "params \<Rightarrow> nat \<Rightarrow> line_side \<Rightarrow> regressor" where
  "same_draws combo = all_inliers"

section \<open>Properties\<close>

subsection \<open>How a bar changes the state\<close>

lemma entry_exit_trend [simp]:
  "active_trend (entry_exit tol d c lp s) = active_trend s"
  "active_trend_info (entry_exit tol d c lp s) = active_trend_info s"
  "last_trend (entry_exit tol d c lp s) = last_trend s"
  "trend_switches (entry_exit tol d c lp s) = trend_switches s"
  "equity (entry_exit tol d c lp s) = equity s"
  by (simp_all add: entry_exit_def Let_def)

lemma trade_step_trend [simp]:
  "active_trend (trade_step tol d c lp s) = active_trend s"
  "active_trend_info (trade_step tol d c lp s) = active_trend_info s"
  "last_trend (trade_step tol d c lp s) = last_trend s"
  "trend_switches (trade_step tol d c lp s) = trend_switches s"
  by (simp_all add: trade_step_def Let_def)

lemma trade_step_book [simp]:
  "position (trade_step tol d c lp s) = position (entry_exit tol d c lp s)"
  "entry_price (trade_step tol d c lp s) = entry_price (entry_exit tol d c lp s)"
  "cash (trade_step tol d c lp s) = cash (entry_exit tol d c lp s)"
  "position_size (trade_step tol d c lp s) = position_size (entry_exit tol d c lp s)"
  "trades (trade_step tol d c lp s) = trades (entry_exit tol d c lp s)"
  "equity (trade_step tol d c lp s)
     = equity s @ [mark_to_market c (entry_exit tol d c lp s)]"
  by (simp_all add: trade_step_def Let_def)

lemma update_trend_book [simp]:
  "position (update_trend d su re up dn s) = position s"
  "entry_price (update_trend d su re up dn s) = entry_price s"
  "cash (update_trend d su re up dn s) = cash s"
  "position_size (update_trend d su re up dn s) = position_size s"
  "trades (update_trend d su re up dn s) = trades s"
  "equity (update_trend d su re up dn s) = equity s"
  by (simp_all add: update_trend_def Let_def)

lemma update_trend_last [simp]:
  "last_trend (update_trend d su re up dn s) = active_trend (update_trend d su re up dn s)"
  by (simp add: update_trend_def Let_def)

lemma update_trend_active:
  "active_trend (update_trend d su re up dn s) =
     (if up \<and> \<not> dn then Some Uptrend else if dn \<and> \<not> up then Some Downtrend
      else last_trend s)"
  "active_trend_info (update_trend d su re up dn s) =
     (if up \<and> \<not> dn then su else if dn \<and> \<not> up then re
      else if last_trend s \<noteq> None then active_trend_info s else no_trendline [])"
  by (simp_all add: update_trend_def Let_def)

subsection \<open>The trend tracker\<close>

lemma bar_step_cases:
  assumes "bar_step regs p df i s = Inr s'"
  obtains su re up dn where "trend_candidates regs p df i = Inr (su, re, up, dn)"
    and "i < length df"
    and "s' = trade_step (touch_tolerance p) (date (df ! i)) (Close (df ! i))
               (trendline_price_at (update_trend (date (df ! i)) su re up dn s) (date (df ! i)))
               (update_trend (date (df ! i)) su re up dn s)"
  using assms by (auto simp: bar_step_def Let_def split: sum.splits if_splits)

lemma trend_inv_init: "trend_inv init_state"
  by (simp add: trend_inv_def init_state_def)

lemma trend_inv_step:
  assumes "trend_inv s" "bar_step regs p df i s = Inr s'"
  shows "trend_inv s'"
  using assms(2)
proof (rule bar_step_cases)
  fix su re up dn
  assume "s' = trade_step (touch_tolerance p) (date (df ! i)) (Close (df ! i))
               (trendline_price_at (update_trend (date (df ! i)) su re up dn s) (date (df ! i)))
               (update_trend (date (df ! i)) su re up dn s)"
  with assms(1) show ?thesis
    by (auto simp: trend_inv_def update_trend_active)
qed

lemma trend_inv_run: "run_loop regs p df k = Inr s \<Longrightarrow> trend_inv s"
proof (induction k arbitrary: s)
  case 0
  then show ?case using trend_inv_init by simp
next
  case (Suc k)
  then show ?case by (auto split: sum.splits intro: trend_inv_step)
qed

text \<open>
  Claim C3 (hysteresis retention).  At every bar, when neither candidate qualifies or both
  do, the bar is processed and the active trend and its line after the bar are those after
  the previous bar (for the first bar: the initial ones).
\<close>

theorem hysteresis_retention:
  assumes "run_loop regs p df k = Inr s"
    and "trend_candidates regs p df k = Inr (support_info, resistance_info, uptrend, downtrend)"
    and "uptrend = downtrend"
    and "k < length df"
  shows "\<exists>s'. run_loop regs p df (Suc k) = Inr s'
            \<and> active_trend s' = active_trend s
            \<and> active_trend_info s' = active_trend_info s"
proof -
  have inv: "trend_inv s" using assms(1) by (rule trend_inv_run)
  show ?thesis using assms inv
    by (auto simp: bar_step_def Let_def update_trend_active trend_inv_def)
qed

lemma bar_step_keeps_trend:
  assumes "trend_inv s" "bar_step regs p df i s = Inr s'" "active_trend s \<noteq> None"
  shows "active_trend s' \<noteq> None"
  using assms(2)
proof (rule bar_step_cases)
  fix su re up dn
  assume "s' = trade_step (touch_tolerance p) (date (df ! i)) (Close (df ! i))
               (trendline_price_at (update_trend (date (df ! i)) su re up dn s) (date (df ! i)))
               (update_trend (date (df ! i)) su re up dn s)"
  with assms(1,3) show ?thesis
    by (auto simp: trend_inv_def update_trend_active)
qed

lemma run_loop_prefix:
  "run_loop regs p df (k + d) = Inr s' \<Longrightarrow> \<exists>s. run_loop regs p df k = Inr s"
  by (induction d arbitrary: s') (auto split: sum.splits)

lemma trend_stays:
  "run_loop regs p df k = Inr s \<Longrightarrow> active_trend s \<noteq> None
     \<Longrightarrow> run_loop regs p df (k + d) = Inr s' \<Longrightarrow> active_trend s' \<noteq> None"
proof (induction d arbitrary: s')
  case 0
  then show ?case by simp
next
  case (Suc d)
  from Suc.prems(3) obtain t where t: "run_loop regs p df (k + d) = Inr t"
    and st: "bar_step regs p df (k + d) t = Inr s'"
    by (auto split: sum.splits)
  from Suc.IH[OF Suc.prems(1,2) t] have "active_trend t \<noteq> None" .
    show ?case using bar_step_keeps_trend[OF trend_inv_run[OF t] st] \<open>active_trend t \<noteq> None\<close> by simp
qed

text \<open>
  Claim C4 (no way back to flat).  For bars \<open>i < j\<close>: when the active trend after bar
  \<open>i\<close> is an uptrend or a downtrend, so is the active trend after bar \<open>j\<close>.
\<close>

theorem never_back_to_flat:
  assumes "i < j"
    and "run_loop regs p df (Suc i) = Inr s"
    and "run_loop regs p df (Suc j) = Inr s'"
    and "active_trend s = Some Uptrend \<or> active_trend s = Some Downtrend"
  shows "active_trend s' = Some Uptrend \<or> active_trend s' = Some Downtrend"
proof -
  from assms(1) obtain d where d: "Suc j = Suc i + d" by (metis less_imp_add_positive add_Suc)
  from assms(4) have "active_trend s \<noteq> None" by auto
  from trend_stays[OF assms(2) this assms(3)[unfolded d]] have "active_trend s' \<noteq> None" .
  then show ?thesis by (cases "active_trend s'") (auto, metis trend.exhaust)
qed

subsection \<open>Causality\<close>

lemma skip_plateau_le:
  "i_ahead \<le> length x - 1 \<Longrightarrow> skip_plateau x i i_ahead \<le> length x - 1"
proof (induction x i i_ahead rule: skip_plateau.induct)
  case (1 x i i_ahead)
  show ?case
  proof (cases "i_ahead < length x - 1 \<and> x ! i_ahead = x ! i")
    case True
    with "1" have "skip_plateau x i (Suc i_ahead) \<le> length x - 1" by simp
    with True show ?thesis by (subst skip_plateau.simps) simp
  next
    case False
    with "1.prems" show ?thesis by (subst skip_plateau.simps) auto
  qed
qed

lemma local_maxima_from_bound:
  "j \<in> set (local_maxima_from x i) \<Longrightarrow> j < length x - 1"
proof (induction x i rule: local_maxima_from.induct)
  case (1 x i)
  show ?case
  proof (cases "i < length x - 1")
    case False
    with "1.prems" show ?thesis by (subst (asm) local_maxima_from.simps) simp
  next
    case in_range: True
    show ?thesis
    proof (cases "x ! (i - 1) < x ! i")
      case False
      with in_range "1.prems" have "j \<in> set (local_maxima_from x (Suc i))"
        by (subst (asm) local_maxima_from.simps) simp
      with "1.IH"(3) in_range False show ?thesis by simp
    next
      case rising: True
      show ?thesis
      proof (cases "x ! (skip_plateau x i (Suc i)) < x ! i")
        case False
        with in_range rising "1.prems" have "j \<in> set (local_maxima_from x (Suc i))"
          by (subst (asm) local_maxima_from.simps) simp
        with "1.IH"(2) in_range rising False show ?thesis by simp
      next
        case True
        with in_range rising "1.prems"
        have "j = (i + (skip_plateau x i (Suc i) - 1)) div 2
                \<or> j \<in> set (local_maxima_from x (Suc (skip_plateau x i (Suc i))))"
          by (subst (asm) local_maxima_from.simps) simp
        then show ?thesis
        proof
          assume j: "j = (i + (skip_plateau x i (Suc i) - 1)) div 2"
          have "skip_plateau x i (Suc i) \<le> length x - 1"
            using in_range by (intro skip_plateau_le) simp
          moreover have "Suc i \<le> skip_plateau x i (Suc i)" by (rule skip_plateau_ge)
          ultimately show ?thesis using in_range j by simp
        next
          assume "j \<in> set (local_maxima_from x (Suc (skip_plateau x i (Suc i))))"
          with "1.IH"(1) in_range rising True show ?thesis by simp
        qed
      qed
    qed
  qed
qed

lemma find_peaks_bound:
  assumes "find_peaks x d pr = Inr peaks" "j \<in> set peaks"
  shows "j < length x"
proof -
  have "set (map fst (filter snd (zip a k))) \<subseteq> set a" for a :: "nat list" and k
    by (auto dest: set_zip_leftD)
  with assms have "j \<in> set (local_maxima_1d x)"
    by (fastforce simp: find_peaks_def Let_def split: if_splits)
  then have "j < length x - 1"
    unfolding local_maxima_1d_def by (rule local_maxima_from_bound)
  then show ?thesis by simp
qed

lemma detect_local_extrema_bound:
  assumes "detect_local_extrema x d pr = Inr (troughs, peaks)"
  shows "\<forall>j \<in> set troughs \<union> set peaks. j < length x"
  using assms find_peaks_bound[of x d pr] find_peaks_bound[of "map uminus x" d pr]
  by (auto simp: detect_local_extrema_def split: sum.splits)

lemma trendline_from_extrema_prefix:
  assumes "\<forall>j \<in> set idx. j < n" "n \<le> length dates" "n \<le> length prices"
  shows "trendline_from_extrema r (take n dates) (take n prices) idx
           = trendline_from_extrema r dates prices idx"
proof -
  have a: "map (\<lambda>j. time_coord (take n dates ! j)) idx = map (\<lambda>j. time_coord (dates ! j)) idx"
    using assms(1) by simp
  have b: "map (\<lambda>j. take n prices ! j) idx = map (\<lambda>j. prices ! j) idx"
    using assms(1) by simp
  have c: "(\<exists>j \<in> set idx. length (take n dates) \<le> j \<or> length (take n prices) \<le> j) = False"
    using assms by auto
  have d: "(\<exists>j \<in> set idx. length dates \<le> j \<or> length prices \<le> j) = False"
    using assms by auto
  show ?thesis
    unfolding trendline_from_extrema_def a b c d
    using assms by (cases idx) auto
qed

lemma trend_candidates_prefix:
  assumes "i < length df"
  shows "trend_candidates regs p (take (Suc i) df) i = trend_candidates regs p df i"
proof -
  define start where "start = nat (max 0 (int i - rebalance_bars p * 6))"
  define sub where "sub = take (Suc i - start) (drop start (map Close df))"
  have sub': "take (Suc i - start) (drop start (map Close (take (Suc i) df))) = sub"
  proof -
    have "map Close (take (Suc i) df) = take (Suc i) (map Close df)" by (simp add: take_map)
    then show ?thesis by (simp only: sub_def drop_take take_take min.idem)
  qed
  have len: "length sub \<le> Suc i - start" by (simp add: sub_def)
  have pre: "trendline_from_extrema r (map date (take (Suc i) df)) (map Close (take (Suc i) df))
                 (map (\<lambda>t. start + t) ex)
               = trendline_from_extrema r (map date df) (map Close df) (map (\<lambda>t. start + t) ex)"
    if "\<forall>j \<in> set ex. j < length sub" for r ex
  proof -
    have "\<forall>j \<in> set (map (\<lambda>t. start + t) ex). j < Suc i" using that len by auto
    from trendline_from_extrema_prefix[OF this, of "map date df" "map Close df" r] assms
    show ?thesis by (simp add: take_map)
  qed
  have bnd: "(\<forall>j \<in> set tr. j < length sub) \<and> (\<forall>j \<in> set pk. j < length sub)"
    if "detect_local_extrema sub (order p) (prominence p) = Inr (tr, pk)" for tr pk
    using detect_local_extrema_bound[OF that] by auto
  show ?thesis
    unfolding trend_candidates_def Let_def
    unfolding start_def[symmetric]
    unfolding sub' sub_def[symmetric]
    by (auto split: sum.splits prod.splits simp: pre dest!: bnd)
qed

lemma bar_step_prefix:
  assumes "i < length df"
  shows "bar_step regs p (take (Suc i) df) i s = bar_step regs p df i s"
  using assms by (simp add: bar_step_def trend_candidates_prefix Let_def split: sum.splits)

lemma bar_step_agree:
  assumes "take (Suc i) df1 = take (Suc i) df2" "i < length df1" "i < length df2"
  shows "bar_step regs p df1 i s = bar_step regs p df2 i s"
  using bar_step_prefix[OF assms(2), of regs p s] bar_step_prefix[OF assms(3), of regs p s] assms(1)
  by simp

lemma run_loop_agree:
  "take k df1 = take k df2 \<Longrightarrow> k \<le> length df1 \<Longrightarrow> k \<le> length df2
     \<Longrightarrow> run_loop regs p df1 k = run_loop regs p df2 k"
proof (induction k)
  case 0
  show ?case by simp
next
  case (Suc k)
  from Suc.prems(1) have "take k (take (Suc k) df1) = take k (take (Suc k) df2)" by simp
  then have "take k df1 = take k df2" by (simp add: min_def)
  with Suc have "run_loop regs p df1 k = run_loop regs p df2 k" by simp
  moreover have "bar_step regs p df1 k s = bar_step regs p df2 k s" for s
    using Suc.prems by (intro bar_step_agree) auto
  ultimately show ?case by (simp split: sum.splits)
qed

text \<open>
  Claim C9 (strict causality).  Two bar sequences that agree on bars \<open>0..i\<close> give, with
  the same regressors, the same state after each of the bars \<open>0..i\<close>: position, entry
  price, cash, active trend and line, both ledgers and the equity values so far.
\<close>

theorem strict_causality:
  assumes "take (Suc i) df1 = take (Suc i) df2" "i < length df1" "i < length df2"
  shows "\<forall>k \<le> Suc i. run_loop regs p df1 k = run_loop regs p df2 k"
proof (intro allI impI)
  fix k assume k: "k \<le> Suc i"
  from assms(1) have "take k (take (Suc i) df1) = take k (take (Suc i) df2)" by simp
  with k have "take k df1 = take k df2" by (simp add: min_def)
  then show "run_loop regs p df1 k = run_loop regs p df2 k"
    using k assms(2,3) by (intro run_loop_agree) auto
qed


subsection \<open>Entries and exits\<close>

lemma entry_exit_action:
  "(trades (entry_exit tol d c lp s) = trades s \<and> position (entry_exit tol d c lp s) = position s)
   \<or> (\<exists>t. trades (entry_exit tol d c lp s) = trades s @ [t]
         \<and> ((position s = 0 \<and> position (entry_exit tol d c lp s) \<noteq> 0
               \<and> (t_type t = buy \<or> t_type t = sell_short))
            \<or> (position s \<noteq> 0 \<and> position (entry_exit tol d c lp s) = 0
               \<and> (t_type t = exit_long \<or> t_type t = exit_short))))"
  by (simp add: entry_exit_def Let_def)

text \<open>
  Claim C10 (at most one trade action per bar).  A bar appends at most one trade.  When it
  appends an entry the position was flat before the bar and is open after it (the exit
  branch is not run on the entry bar); when it appends an exit the position was open before
  the bar and is flat after it (no entry on the exit bar).
\<close>

theorem one_action_per_bar:
  assumes "bar_step regs p df i s = Inr s'"
  shows "(trades s' = trades s \<and> position s' = position s)
   \<or> (\<exists>t. trades s' = trades s @ [t]
         \<and> ((position s = 0 \<and> position s' \<noteq> 0 \<and> (t_type t = buy \<or> t_type t = sell_short))
            \<or> (position s \<noteq> 0 \<and> position s' = 0
                 \<and> (t_type t = exit_long \<or> t_type t = exit_short))))"
  using assms(1)
proof (rule bar_step_cases)
  fix su re up dn
  assume s': "s' = trade_step (touch_tolerance p) (date (df ! i)) (Close (df ! i))
               (trendline_price_at (update_trend (date (df ! i)) su re up dn s) (date (df ! i)))
               (update_trend (date (df ! i)) su re up dn s)"
  show ?thesis
    using entry_exit_action[of "touch_tolerance p" "date (df ! i)" "Close (df ! i)"
        "trendline_price_at (update_trend (date (df ! i)) su re up dn s) (date (df ! i))"
        "update_trend (date (df ! i)) su re up dn s"]
    unfolding s' by simp
qed

text \<open>
  Claim C8 (touch predicate).  \<open>is_touching_line p L t\<close> holds exactly when \<open>L\<close> is a
  number (not NaN) and \<open>|p - L| \<le> t * L\<close>; and at a bar whose active line has no model, a
  flat position stays flat and no trade is recorded.
\<close>

theorem touch_predicate:
  "(is_touching_line price line_price tolerance
      \<longleftrightarrow> (\<exists>l. line_price = Some l \<and> \<bar>price - l\<bar> \<le> tolerance * l))
   \<and> (bar_step regs p df i s = Inr s' \<longrightarrow> model (active_trend_info s') = None
        \<longrightarrow> position s = 0 \<longrightarrow> position s' = 0 \<and> trades s' = trades s)"
proof (rule conjI)
  show "is_touching_line price line_price tolerance
      \<longleftrightarrow> (\<exists>l. line_price = Some l \<and> \<bar>price - l\<bar> \<le> tolerance * l)"
    by (cases line_price) (simp_all add: is_touching_line_def)
next
  show "bar_step regs p df i s = Inr s' \<longrightarrow> model (active_trend_info s') = None
        \<longrightarrow> position s = 0 \<longrightarrow> position s' = 0 \<and> trades s' = trades s"
  proof (intro impI)
  assume step: "bar_step regs p df i s = Inr s'" and nomodel: "model (active_trend_info s') = None"
    and flat: "position s = 0"
  from step show "position s' = 0 \<and> trades s' = trades s"
  proof (rule bar_step_cases)
    fix su re up dn
    assume s': "s' = trade_step (touch_tolerance p) (date (df ! i)) (Close (df ! i))
               (trendline_price_at (update_trend (date (df ! i)) su re up dn s) (date (df ! i)))
               (update_trend (date (df ! i)) su re up dn s)"
    with nomodel have "model (active_trend_info (update_trend (date (df ! i)) su re up dn s)) = None"
      by simp
    then have "trendline_price_at (update_trend (date (df ! i)) su re up dn s) (date (df ! i)) = None"
      by (simp add: trendline_price_at_def)
    with flat show ?thesis unfolding s'
      by (simp add: entry_exit_def is_touching_line_def)
  qed
  qed
qed

subsection \<open>Short windows\<close>

lemma short_window_no_maxima: "length x < 3 \<Longrightarrow> local_maxima_1d x = []"
  unfolding local_maxima_1d_def by (subst local_maxima_from.simps) auto

text \<open>
  Claim C5, as amended.  For every window of fewer than three prices, every order of at
  least one and every prominence, \<open>detect_local_extrema\<close> returns no trough and no peak.
\<close>

theorem short_window_no_extrema:
  assumes "length series < 3" "1 \<le> ord"
  shows "detect_local_extrema series ord prom = Inr ([], [])"
  using assms
  by (simp add: detect_local_extrema_def find_peaks_def short_window_no_maxima
      select_by_peak_distance_def)

subsection \<open>The leaderboards\<close>

lemma rank_step_median:
  "best_median_params (rank_step lb r) = Some c
     \<Longrightarrow> best_median_params lb = Some c \<or> (\<exists>m e. r = (c, Fin m, e))"
  by (cases r; cases "fst (snd r)") (auto simp: rank_step_def Let_def split: if_splits)

lemma foldl_rank_median:
  "best_median_params (foldl rank_step lb rs) = Some c
     \<Longrightarrow> best_median_params lb = Some c \<or> (\<exists>m e. (c, Fin m, e) \<in> set rs)"
proof (induction rs arbitrary: lb)
  case Nil
  then show ?case by simp
next
  case (Cons r rs)
  from Cons.IH[of "rank_step lb r"] Cons.prems
  have "best_median_params (rank_step lb r) = Some c \<or> (\<exists>m e. (c, Fin m, e) \<in> set rs)"
    by simp
  then show ?case using rank_step_median[of lb r c] by auto
qed

lemma median_winner_is_finite:
  "best_median_params (find_best results) = Some c \<Longrightarrow> \<exists>m e. (c, Fin m, e) \<in> set results"
  using foldl_rank_median[of init_board results c] by (simp add: find_best_def init_board_def)

lemma run_loop_equity_length: "run_loop regs p df k = Inr s \<Longrightarrow> length (equity s) = k"
proof (induction k arbitrary: s)
  case 0
  then show ?case by (auto simp: init_state_def)
next
  case (Suc k)
  from Suc.prems obtain t where t: "run_loop regs p df k = Inr t"
    and st: "bar_step regs p df k t = Inr s" by (auto split: sum.splits)
  from st show ?case by (rule bar_step_cases) (simp add: Suc.IH[OF t])
qed

lemma backtest_result_nonempty:
  assumes "backtest_trendline_strategy regs df combo = Inr (result, trs, info, sw)"
  shows "result \<noteq> []" "trs \<noteq> []"
proof -
  from assms obtain s where s: "run_loop regs combo df (length df) = Inr s"
    and r: "result = equity s" "trs = trades s" "trades s \<noteq> []"
    by (auto simp: backtest_trendline_strategy_def split: sum.splits if_splits)
  show "trs \<noteq> []" using r by simp
  have "length df \<noteq> 0"
  proof
    assume "length df = 0"
    with s have "s = init_state" by simp
    with r(3) show False by (simp add: init_state_def)
  qed
  with run_loop_equity_length[OF s] r(1) show "result \<noteq> []" by auto
qed

text \<open>
  Claim C2, as amended.  A combination whose run completes with a trade ledger that holds no
  exit gets the median PnL minus infinity, and a list of results in which it has no finite
  median never makes it the winner of the best-by-median leaderboard.
\<close>

theorem no_exit_loses_median_board:
  assumes "backtest_trendline_strategy regs df combo = Inr (result, trs, info, sw)"
    and "\<forall>t \<in> set trs. t_pnl t = None"
  shows "run_backtest_combo regs combo df = Inr (combo, NegInf, last result)
       \<and> (\<forall>results. (\<forall>m e. (combo, Fin m, e) \<notin> set results)
             \<longrightarrow> best_median_params (find_best results) \<noteq> Some combo)"
proof
  from backtest_result_nonempty[OF assms(1)] assms
  show "run_backtest_combo regs combo df = Inr (combo, NegInf, last result)"
    by (simp add: run_backtest_combo_def median_pnl_of_def)
next
  show "\<forall>results. (\<forall>m e. (combo, Fin m, e) \<notin> set results)
             \<longrightarrow> best_median_params (find_best results) \<noteq> Some combo"
    using median_winner_is_finite by blast
qed


subsection \<open>Cash, notional and equity\<close>

lemma sell_nonneg:
  fixes n e c :: real
  assumes "0 < e" "0 \<le> n" "0 < c"
  shows "0 \<le> n + (c - e) * n / e"
proof -
  have "n + (c - e) * n / e = n * (c / e)" using assms(1) by (simp add: field_simps)
  with assms show ?thesis by simp
qed

lemma sell_pos:
  fixes n e c :: real
  assumes "0 < e" "0 < n" "0 < c"
  shows "0 < n + (c - e) * n / e"
proof -
  have "n + (c - e) * n / e = n * (c / e)" using assms(1) by (simp add: field_simps)
  with assms show ?thesis by simp
qed

lemma cover_nonneg:
  fixes n e c :: real
  assumes "0 < e" "0 \<le> n" "c \<le> 2 * e"
  shows "0 \<le> n + (e - c) * n / e"
proof -
  have "n + (e - c) * n / e = n * (2 - c / e)" using assms(1) by (simp add: field_simps)
  moreover from assms(1,3) have "0 \<le> 2 - c / e" by (simp add: field_simps)
  ultimately show ?thesis using assms(2) by simp
qed

lemma cover_pos:
  fixes n e c :: real
  assumes "0 < e" "0 < n" "c < 2 * e"
  shows "0 < n + (e - c) * n / e"
proof -
  have "n + (e - c) * n / e = n * (2 - c / e)" using assms(1) by (simp add: field_simps)
  moreover from assms(1,3) have "0 < 2 - c / e" by (simp add: field_simps)
  ultimately show ?thesis using assms(2) by simp
qed

lemma book_inv_entry_exit: "book_inv s \<Longrightarrow> book_inv (entry_exit tol d c lp s)"
  by (auto simp: book_inv_def entry_exit_def Let_def)

lemma solvent_trade_step:
  assumes "solvent s" "book_inv s" "0 < c"
    and "position s = - 1 \<Longrightarrow> position (entry_exit tol d c lp s) = 0 \<Longrightarrow> c \<le> 2 * entry_price s"
  shows "solvent (trade_step tol d c lp s)"
proof -
  consider (flat) "position s = 0" | (long) "position s = 1" | (short) "position s = - 1"
    using assms(2) by (auto simp: book_inv_def)
  then show ?thesis
  proof cases
    case flat
    with assms(1,3) show ?thesis
      by (auto simp: solvent_def entry_exit_def mark_to_market_def Let_def)
  next
    case long
    with assms(1) have n: "0 \<le> position_size s" and e: "0 < entry_price s"
      by (auto simp: solvent_def)
    from n e assms(3) have "0 \<le> position_size s * (c / entry_price s)" by simp
    with long assms(1) e n assms(3) show ?thesis
      by (auto simp: solvent_def entry_exit_def mark_to_market_def Let_def sell_nonneg)
  next
    case short
    with assms(1) have n: "0 \<le> position_size s" and e: "0 < entry_price s"
      by (auto simp: solvent_def)
    from n e assms(3) have mtm: "0 \<le> position_size s * (entry_price s / c)" by simp
    show ?thesis
    proof (cases "crosses_above c lp")
      case True
      with short have "position (entry_exit tol d c lp s) = 0" by (simp add: entry_exit_def Let_def)
      with assms(4) short have "c \<le> 2 * entry_price s" by simp
      with True short assms(1) e n show ?thesis
        by (auto simp: solvent_def entry_exit_def mark_to_market_def Let_def cover_nonneg)
    next
      case False
      with short assms(1) mtm show ?thesis
        by (auto simp: solvent_def entry_exit_def mark_to_market_def Let_def)
    qed
  qed
qed

lemma funded_entry_exit:
  assumes "funded s" "book_inv s" "0 < c"
    and "position s = - 1 \<Longrightarrow> position (entry_exit tol d c lp s) = 0 \<Longrightarrow> c < 2 * entry_price s"
  shows "funded (entry_exit tol d c lp s)"
proof -
  consider (flat) "position s = 0" | (long) "position s = 1" | (short) "position s = - 1"
    using assms(2) by (auto simp: book_inv_def)
  then show ?thesis
  proof cases
    case flat
    with assms(1,3) show ?thesis
      by (auto simp: funded_def entry_exit_def Let_def)
  next
    case long
    with assms(1) have n: "0 < position_size s" and e: "0 < entry_price s"
      by (auto simp: funded_def)
    with long assms(1,3) show ?thesis
      by (auto simp: funded_def entry_exit_def Let_def sell_pos)
  next
    case short
    with assms(1) have n: "0 < position_size s" and e: "0 < entry_price s"
      by (auto simp: funded_def)
    show ?thesis
    proof (cases "crosses_above c lp")
      case True
      with short have "position (entry_exit tol d c lp s) = 0" by (simp add: entry_exit_def Let_def)
      with assms(4) short have "c < 2 * entry_price s" by simp
      with True short assms(1) e n show ?thesis
        by (auto simp: funded_def entry_exit_def Let_def cover_pos)
    next
      case False
      with short assms(1) show ?thesis
        by (auto simp: funded_def entry_exit_def Let_def)
    qed
  qed
qed


lemma short_exits_withinD:
  assumes "short_exits_within regs p df" "k < length df"
    "run_loop regs p df k = Inr s" "bar_step regs p df k s = Inr s'"
    "position s = - 1" "position s' = 0"
  shows "Close (df ! k) \<le> 2 * entry_price s"
  using assms unfolding short_exits_within_def by (auto split: sum.splits)

lemma short_exits_belowD:
  assumes "short_exits_below regs p df" "k < length df"
    "run_loop regs p df k = Inr s" "bar_step regs p df k s = Inr s'"
    "position s = - 1" "position s' = 0"
  shows "Close (df ! k) < 2 * entry_price s"
  using assms unfolding short_exits_below_def by (auto split: sum.splits)

lemma book_inv_run: "run_loop regs p df k = Inr s \<Longrightarrow> book_inv s"
proof (induction k arbitrary: s)
  case 0
  then show ?case by (auto simp: book_inv_def init_state_def)
next
  case (Suc k)
  from Suc.prems obtain t where t: "run_loop regs p df k = Inr t"
    and st: "bar_step regs p df k t = Inr s" by (auto split: sum.splits)
  have "book_inv t" using t by (rule Suc.IH)
  then have "book_inv (update_trend d su re up dn t)" for d su re up dn
    by (simp add: book_inv_def)
  from st show ?case
  proof (rule bar_step_cases)
    fix su re up dn
    assume "s = trade_step (touch_tolerance p) (date (df ! k)) (Close (df ! k))
               (trendline_price_at (update_trend (date (df ! k)) su re up dn t) (date (df ! k)))
               (update_trend (date (df ! k)) su re up dn t)"
    with book_inv_entry_exit[OF \<open>book_inv (update_trend (date (df ! k)) su re up dn t)\<close>]
    show ?thesis by (simp add: book_inv_def)
  qed
qed

lemma solvent_run:
  assumes "\<forall>b \<in> set df. 0 < Close b" "short_exits_within regs p df"
  shows "k \<le> length df \<Longrightarrow> run_loop regs p df k = Inr s \<Longrightarrow> solvent s"
proof (induction k arbitrary: s)
  case 0
  then show ?case by (auto simp: solvent_def init_state_def)
next
  case (Suc k)
  from Suc.prems obtain t where t: "run_loop regs p df k = Inr t"
    and st: "bar_step regs p df k t = Inr s" by (auto split: sum.splits)
  from Suc.prems have k: "k < length df" by simp
  with assms(1) have c: "0 < Close (df ! k)" by simp
  have solv: "solvent t" using Suc.IH[OF _ t] k by simp
  have bk: "book_inv t" using t by (rule book_inv_run)
  from st show ?case
  proof (rule bar_step_cases)
    fix su re up dn
    let ?u = "update_trend (date (df ! k)) su re up dn t"
    assume s: "s = trade_step (touch_tolerance p) (date (df ! k)) (Close (df ! k))
               (trendline_price_at ?u (date (df ! k))) ?u"
    have "solvent ?u" using solv by (simp add: solvent_def)
    moreover have "book_inv ?u" using bk by (simp add: book_inv_def)
    moreover have "Close (df ! k) \<le> 2 * entry_price ?u"
      if "position ?u = - 1"
        "position (entry_exit (touch_tolerance p) (date (df ! k)) (Close (df ! k))
                     (trendline_price_at ?u (date (df ! k))) ?u) = 0"
      using short_exits_withinD[OF assms(2) k t st] that s by simp
    ultimately show ?thesis unfolding s using c by (intro solvent_trade_step)
  qed
qed

lemma funded_run:
  assumes "\<forall>b \<in> set df. 0 < Close b" "short_exits_below regs p df"
  shows "k \<le> length df \<Longrightarrow> run_loop regs p df k = Inr s \<Longrightarrow> funded s"
proof (induction k arbitrary: s)
  case 0
  then show ?case by (auto simp: funded_def init_state_def)
next
  case (Suc k)
  from Suc.prems obtain t where t: "run_loop regs p df k = Inr t"
    and st: "bar_step regs p df k t = Inr s" by (auto split: sum.splits)
  from Suc.prems have k: "k < length df" by simp
  with assms(1) have c: "0 < Close (df ! k)" by simp
  have fd: "funded t" using Suc.IH[OF _ t] k by simp
  have bk: "book_inv t" using t by (rule book_inv_run)
  from st show ?case
  proof (rule bar_step_cases)
    fix su re up dn
    let ?u = "update_trend (date (df ! k)) su re up dn t"
    assume s: "s = trade_step (touch_tolerance p) (date (df ! k)) (Close (df ! k))
               (trendline_price_at ?u (date (df ! k))) ?u"
    have "funded ?u" using fd by (simp add: funded_def)
    moreover have "book_inv ?u" using bk by (simp add: book_inv_def)
    moreover have "Close (df ! k) < 2 * entry_price ?u"
      if "position ?u = - 1"
        "position (entry_exit (touch_tolerance p) (date (df ! k)) (Close (df ! k))
                     (trendline_price_at ?u (date (df ! k))) ?u) = 0"
      using short_exits_belowD[OF assms(2) k t st] that s by simp
    ultimately have "funded (entry_exit (touch_tolerance p) (date (df ! k)) (Close (df ! k))
                     (trendline_price_at ?u (date (df ! k))) ?u)"
      using c by (intro funded_entry_exit)
    then show ?thesis unfolding s by (simp add: funded_def)
  qed
qed

text \<open>
  Claim C1, as amended.  With strictly positive close prices at every bar, and no short
  covered above twice its entry price, every value of the equity series that
  \<open>backtest_trendline_strategy\<close> returns is non-negative.
\<close>

theorem equity_nonnegative:
  assumes "\<forall>b \<in> set df. 0 < Close b"
    and "short_exits_within regs p df"
    and "backtest_trendline_strategy regs df p = Inr (result, trs, info, sw)"
  shows "\<forall>e \<in> set result. 0 \<le> e"
proof -
  from assms(3) obtain s where s: "run_loop regs p df (length df) = Inr s" and r: "result = equity s"
    by (auto simp: backtest_trendline_strategy_def split: sum.splits if_splits)
  from solvent_run[OF assms(1,2) _ s] r show ?thesis by (simp add: solvent_def)
qed

text \<open>
  Claim C7, as amended.  After every bar of a run: a flat position has notional zero; with
  strictly positive close prices and every short covered below twice its entry price, an
  open position has a strictly positive notional; and the next bar records an entry only
  when the position is flat.
\<close>

theorem one_position_invariant:
  assumes "k \<le> length df" and "run_loop regs p df k = Inr s"
  shows "(position s = 0 \<longrightarrow> position_size s = 0)
     \<and> ((\<forall>b \<in> set df. 0 < Close b) \<longrightarrow> short_exits_below regs p df
            \<longrightarrow> position s \<noteq> 0 \<longrightarrow> 0 < position_size s)
     \<and> (\<forall>s' t. bar_step regs p df k s = Inr s' \<longrightarrow> trades s' = trades s @ [t]
            \<longrightarrow> t_type t = buy \<or> t_type t = sell_short \<longrightarrow> position s = 0)"
proof (intro conjI allI impI)
  from book_inv_run[OF assms(2)] show "position s = 0 \<Longrightarrow> position_size s = 0"
    by (simp add: book_inv_def)
next
  assume "\<forall>b \<in> set df. 0 < Close b" "short_exits_below regs p df" "position s \<noteq> 0"
  with funded_run[OF _ _ assms] show "0 < position_size s" by (simp add: funded_def)
next
  fix s' t
  assume st: "bar_step regs p df k s = Inr s'" and tr: "trades s' = trades s @ [t]"
    and ty: "t_type t = buy \<or> t_type t = sell_short"
  from st show "position s = 0"
  proof (rule bar_step_cases)
    fix su re up dn
    let ?u = "update_trend (date (df ! k)) su re up dn s"
    assume s': "s' = trade_step (touch_tolerance p) (date (df ! k)) (Close (df ! k))
               (trendline_price_at ?u (date (df ! k))) ?u"
    from entry_exit_action[of "touch_tolerance p" "date (df ! k)" "Close (df ! k)"
        "trendline_price_at ?u (date (df ! k))" ?u] tr ty
    show ?thesis unfolding s' by auto
  qed
qed


section \<open>Evaluation of the two concrete runs\<close>

lemma calm_prices: "map Close calm_bars = [10, 12, 10, 11, 52/5, 53/5, 19/2]"
  by (simp add: calm_bars_def bar_at_def)

lemma spike_prices: "map Close spike_bars = [10, 12, 10, 11, 52/5, 30, 11]"
  by (simp add: spike_bars_def bar_at_def)

lemma calm_dates:
  "map date calm_bars = map (\<lambda>d. \<lparr>ordinal = d, hour = 0\<rparr>) [1, 2, 3, 4, 5, 6, 7]"
  by (simp add: calm_bars_def bar_at_def)

lemma spike_dates:
  "map date spike_bars = map (\<lambda>d. \<lparr>ordinal = d, hour = 0\<rparr>) [1, 2, 3, 4, 5, 6, 7]"
  by (simp add: spike_bars_def bar_at_def)

lemma calm_nth:
  "calm_bars ! 0 = bar_at 1 10" "calm_bars ! 1 = bar_at 2 12" "calm_bars ! 2 = bar_at 3 10"
  "calm_bars ! 3 = bar_at 4 11" "calm_bars ! 4 = bar_at 5 (52/5)"
  "calm_bars ! 5 = bar_at 6 (53/5)" "calm_bars ! 6 = bar_at 7 (19/2)"
  by (simp_all add: calm_bars_def)

lemma spike_nth:
  "spike_bars ! 5 = bar_at 6 30" "spike_bars ! 6 = bar_at 7 11"
  by (simp_all add: spike_bars_def)

lemma calm_length: "length calm_bars = 7"
  by (simp add: calm_bars_def)

lemma spike_length: "length spike_bars = 7"
  by (simp add: spike_bars_def)

lemma extrema_1: "detect_local_extrema [10] 1 0 = Inr ([], [])" by code_simp
lemma extrema_2: "detect_local_extrema [10, 12] 1 0 = Inr ([], [])" by code_simp
lemma extrema_3: "detect_local_extrema [10, 12, 10] 1 0 = Inr ([], [1])" by code_simp
lemma extrema_4: "detect_local_extrema [10, 12, 10, 11] 1 0 = Inr ([2], [1])" by code_simp
lemma extrema_5: "detect_local_extrema [10, 12, 10, 11, 52/5] 1 0 = Inr ([2], [1, 3])"
  by code_simp
lemma extrema_calm_6:
  "detect_local_extrema [10, 12, 10, 11, 52/5, 53/5] 1 0 = Inr ([2, 4], [1, 3])"
  by code_simp
lemma extrema_calm_7:
  "detect_local_extrema [10, 12, 10, 11, 52/5, 53/5, 19/2] 1 0 = Inr ([2, 4], [1, 3, 5])"
  by code_simp
lemma extrema_spike_6:
  "detect_local_extrema [10, 12, 10, 11, 52/5, 30] 1 0 = Inr ([2, 4], [1, 3])"
  by code_simp
lemma extrema_spike_7:
  "detect_local_extrema [10, 12, 10, 11, 52/5, 30, 11] 1 0 = Inr ([2, 4], [1, 3, 5])"
  by code_simp

lemmas candidate_defs =
  trend_candidates_def grid_point_def no_trendline_def trendline_from_extrema_def
  fit_trendline_ransac_def all_inliers_def least_squares_def time_coord_def power2_eq_square
  falling_line_def rising_line_def

lemma calm_candidates_0:
  "trend_candidates all_inliers (grid_point tol) calm_bars 0
     = Inr (no_trendline [], no_trendline [], False, False)"
  by (simp add: candidate_defs calm_prices extrema_1)

lemma calm_candidates_1:
  "trend_candidates all_inliers (grid_point tol) calm_bars 1
     = Inr (no_trendline [], no_trendline [], False, False)"
  by (simp add: candidate_defs calm_prices extrema_2)

lemma calm_candidates_2:
  "trend_candidates all_inliers (grid_point tol) calm_bars 2
     = Inr (no_trendline [], no_trendline [1], False, False)"
  by (simp add: candidate_defs calm_prices extrema_3)

lemma calm_candidates_3:
  "trend_candidates all_inliers (grid_point tol) calm_bars 3
     = Inr (no_trendline [2], no_trendline [1], False, False)"
  by (simp add: candidate_defs calm_prices extrema_4)

lemma calm_candidates_4:
  "trend_candidates all_inliers (grid_point tol) calm_bars 4
     = Inr (no_trendline [2], falling_line, False, True)"
  by (simp add: candidate_defs calm_prices calm_dates extrema_5)

lemma calm_candidates_5:
  "trend_candidates all_inliers (grid_point tol) calm_bars 5
     = Inr (rising_line, falling_line, True, True)"
  by (simp add: candidate_defs calm_prices calm_dates extrema_calm_6)

lemma calm_candidates_6:
  "trend_candidates all_inliers (grid_point tol) calm_bars 6
     = Inr (rising_line,
            \<lparr>slope = - 7/20, intercept = Some (63/5), model = Some (- 7/20, 63/5),
             used_points = [1, 3, 5]\<rparr>, True, True)"
  by (simp add: candidate_defs calm_prices calm_dates extrema_calm_7)

lemma spike_candidates_5:
  "trend_candidates all_inliers (grid_point tol) spike_bars 5
     = Inr (rising_line, falling_line, True, True)"
  by (simp add: candidate_defs spike_prices spike_dates extrema_spike_6)

lemma spike_candidates_6:
  "trend_candidates all_inliers (grid_point tol) spike_bars 6
     = Inr (rising_line,
            \<lparr>slope = 9/2, intercept = Some (- 1/3), model = Some (9/2, - 1/3),
             used_points = [1, 3, 5]\<rparr>, True, False)"
  by (simp add: candidate_defs spike_prices spike_dates extrema_spike_7)


lemma run_loop_next:
  "run_loop regs p df k = Inr s \<Longrightarrow> bar_step regs p df k s = r \<Longrightarrow> k' = Suc k
     \<Longrightarrow> run_loop regs p df k' = r"
  by simp

lemma bar_step_eval:
  assumes "trend_candidates regs p df k = Inr (su, re, up, dn)"
    and "df ! k = bar_at d c"
    and "update_trend \<lparr>ordinal = d, hour = 0\<rparr> su re up dn s = u"
    and "trendline_price_at u \<lparr>ordinal = d, hour = 0\<rparr> = lp"
    and "trade_step (touch_tolerance p) \<lparr>ordinal = d, hour = 0\<rparr> c lp u = s'"
    and "k < length df"
  shows "bar_step regs p df k s = Inr s'"
  using assms by (simp add: bar_step_def bar_at_def Let_def)

lemma update_trend_retain:
  assumes "up = dn" "last_trend s = active_trend s" "active_trend s \<noteq> None"
  shows "update_trend d su re up dn s = s"
  using assms by (auto simp: update_trend_def Let_def)

lemma idle_step:
  assumes "trend_candidates regs p df k = Inr (su, re, False, False)"
    and "df ! k = bar_at d c"
    and "eq' = eq @ [100000]"
    and "k < length df"
  shows "bar_step regs p df k (idle eq) = Inr (idle eq')"
  using assms
  by (simp add: bar_step_def bar_at_def Let_def update_trend_def trade_step_def entry_exit_def
      mark_to_market_def trendline_price_at_def idle_def init_state_def no_trendline_def)

lemma calm_run_0: "run_loop all_inliers (grid_point tol) calm_bars 0 = Inr (idle [])"
  by (simp add: idle_def init_state_def)

lemma calm_run_1: "run_loop all_inliers (grid_point tol) calm_bars 1 = Inr (idle [100000])"
  by (rule run_loop_next[OF calm_run_0 idle_step[OF calm_candidates_0 calm_nth(1)]])
     (simp_all add: calm_length)

lemma calm_run_2:
  "run_loop all_inliers (grid_point tol) calm_bars 2 = Inr (idle [100000, 100000])"
  by (rule run_loop_next[OF calm_run_1 idle_step[OF calm_candidates_1 calm_nth(2)]])
     (simp_all add: calm_length)

lemma calm_run_3:
  "run_loop all_inliers (grid_point tol) calm_bars 3 = Inr (idle [100000, 100000, 100000])"
  by (rule run_loop_next[OF calm_run_2 idle_step[OF calm_candidates_2 calm_nth(3)]])
     (simp_all add: calm_length)

lemma calm_run_4:
  "run_loop all_inliers (grid_point tol) calm_bars 4
     = Inr (idle [100000, 100000, 100000, 100000])"
  by (rule run_loop_next[OF calm_run_3 idle_step[OF calm_candidates_3 calm_nth(4)]])
     (simp_all add: calm_length)

lemma turn_5:
  "update_trend \<lparr>ordinal = 5, hour = 0\<rparr> su falling_line False True
     (idle [100000, 100000, 100000, 100000]) = armed_5"
  by (simp add: update_trend_def idle_def init_state_def armed_5_def Let_def)

lemmas trade_defs =
  trade_step_def entry_exit_def mark_to_market_def is_touching_line_def crosses_above_def
  crosses_below_def Let_def

lemmas line_defs = trendline_price_at_def line_value_at_def time_coord_def falling_line_def
  rising_line_def

lemma tol_grid_point: "touch_tolerance (grid_point tol) = tol"
  by (simp add: grid_point_def)

text \<open>The combination with tolerance 1/200.\<close>

lemma watch_step_4:
  "bar_step all_inliers (grid_point (1/200)) calm_bars 4 (idle [100000, 100000, 100000, 100000]) = Inr watch_5"
proof (rule bar_step_eval[OF calm_candidates_4 calm_nth(5) turn_5])
  show "trendline_price_at armed_5 \<lparr>ordinal = 5, hour = 0\<rparr> = Some (21/2)"
    by (simp add: line_defs armed_5_def)
  show "trade_step (touch_tolerance (grid_point (1/200))) \<lparr>ordinal = 5, hour = 0\<rparr> (52/5)
          (Some (21/2)) armed_5 = watch_5"
    by (simp add: tol_grid_point trade_defs armed_5_def watch_5_def)
qed (simp add: calm_length spike_length)

lemma watch_run_5: "run_loop all_inliers (grid_point (1/200)) calm_bars 5 = Inr watch_5"
  by (rule run_loop_next[OF calm_run_4 watch_step_4]) simp

lemma watch_step_5:
  "bar_step all_inliers (grid_point (1/200)) calm_bars 5 watch_5 = Inr watch_6"
proof (rule bar_step_eval[OF calm_candidates_5 calm_nth(6)])
  show "update_trend \<lparr>ordinal = 6, hour = 0\<rparr> rising_line falling_line True True watch_5 = watch_5"
    by (rule update_trend_retain) (simp_all add: watch_5_def)
  show "trendline_price_at watch_5 \<lparr>ordinal = 6, hour = 0\<rparr> = Some 10"
    by (simp add: line_defs watch_5_def)
  show "trade_step (touch_tolerance (grid_point (1/200))) \<lparr>ordinal = 6, hour = 0\<rparr> (53/5)
          (Some 10) watch_5 = watch_6"
    by (simp add: tol_grid_point trade_defs watch_5_def watch_6_def)
qed (simp add: calm_length spike_length)

lemma watch_run_6: "run_loop all_inliers (grid_point (1/200)) calm_bars 6 = Inr watch_6"
  by (rule run_loop_next[OF watch_run_5 watch_step_5]) simp

lemma watch_step_6:
  "bar_step all_inliers (grid_point (1/200)) calm_bars 6 watch_6 = Inr watch_7"
proof (rule bar_step_eval[OF calm_candidates_6 calm_nth(7)])
  show "update_trend \<lparr>ordinal = 7, hour = 0\<rparr> rising_line
          \<lparr>slope = - 7/20, intercept = Some (63/5), model = Some (- 7/20, 63/5),
           used_points = [1, 3, 5]\<rparr> True True watch_6 = watch_6"
    by (rule update_trend_retain) (simp_all add: watch_6_def)
  show "trendline_price_at watch_6 \<lparr>ordinal = 7, hour = 0\<rparr> = Some (19/2)"
    by (simp add: line_defs watch_6_def)
  show "trade_step (touch_tolerance (grid_point (1/200))) \<lparr>ordinal = 7, hour = 0\<rparr> (19/2)
          (Some (19/2)) watch_6 = watch_7"
    by (simp add: tol_grid_point trade_defs watch_6_def watch_7_def)
qed (simp add: calm_length spike_length)

lemma watch_run_7: "run_loop all_inliers (grid_point (1/200)) calm_bars 7 = Inr watch_7"
  by (rule run_loop_next[OF watch_run_6 watch_step_6]) simp

text \<open>The combination with tolerance 1/50.\<close>

lemma calm_step_4:
  "bar_step all_inliers (grid_point (1/50)) calm_bars 4 (idle [100000, 100000, 100000, 100000]) = Inr short_5"
proof (rule bar_step_eval[OF calm_candidates_4 calm_nth(5) turn_5])
  show "trendline_price_at armed_5 \<lparr>ordinal = 5, hour = 0\<rparr> = Some (21/2)"
    by (simp add: line_defs armed_5_def)
  show "trade_step (touch_tolerance (grid_point (1/50))) \<lparr>ordinal = 5, hour = 0\<rparr> (52/5)
          (Some (21/2)) armed_5 = short_5"
    by (simp add: tol_grid_point trade_defs armed_5_def short_5_def)
qed (simp add: calm_length spike_length)

lemma calm_run_5: "run_loop all_inliers (grid_point (1/50)) calm_bars 5 = Inr short_5"
  by (rule run_loop_next[OF calm_run_4 calm_step_4]) simp

lemma calm_step_5:
  "bar_step all_inliers (grid_point (1/50)) calm_bars 5 short_5 = Inr calm_6"
proof (rule bar_step_eval[OF calm_candidates_5 calm_nth(6)])
  show "update_trend \<lparr>ordinal = 6, hour = 0\<rparr> rising_line falling_line True True short_5 = short_5"
    by (rule update_trend_retain) (simp_all add: short_5_def)
  show "trendline_price_at short_5 \<lparr>ordinal = 6, hour = 0\<rparr> = Some 10"
    by (simp add: line_defs short_5_def)
  show "trade_step (touch_tolerance (grid_point (1/50))) \<lparr>ordinal = 6, hour = 0\<rparr> (53/5)
          (Some 10) short_5 = calm_6"
    by (simp add: tol_grid_point trade_defs short_5_def calm_6_def)
qed (simp add: calm_length spike_length)

lemma calm_run_6: "run_loop all_inliers (grid_point (1/50)) calm_bars 6 = Inr calm_6"
  by (rule run_loop_next[OF calm_run_5 calm_step_5]) simp

lemma calm_step_6:
  "bar_step all_inliers (grid_point (1/50)) calm_bars 6 calm_6 = Inr calm_7"
proof (rule bar_step_eval[OF calm_candidates_6 calm_nth(7)])
  show "update_trend \<lparr>ordinal = 7, hour = 0\<rparr> rising_line
          \<lparr>slope = - 7/20, intercept = Some (63/5), model = Some (- 7/20, 63/5),
           used_points = [1, 3, 5]\<rparr> True True calm_6 = calm_6"
    by (rule update_trend_retain) (simp_all add: calm_6_def)
  show "trendline_price_at calm_6 \<lparr>ordinal = 7, hour = 0\<rparr> = Some (19/2)"
    by (simp add: line_defs calm_6_def)
  show "trade_step (touch_tolerance (grid_point (1/50))) \<lparr>ordinal = 7, hour = 0\<rparr> (19/2)
          (Some (19/2)) calm_6 = calm_7"
    by (simp add: tol_grid_point trade_defs calm_6_def calm_7_def)
qed (simp add: calm_length spike_length)

lemma calm_run_7: "run_loop all_inliers (grid_point (1/50)) calm_bars 7 = Inr calm_7"
  by (rule run_loop_next[OF calm_run_6 calm_step_6]) simp

text \<open>The same combination on the bars with the spike.\<close>

lemma spike_run_5: "run_loop all_inliers (grid_point (1/50)) spike_bars 5 = Inr short_5"
proof -
  have "run_loop all_inliers (grid_point (1/50)) spike_bars 5
          = run_loop all_inliers (grid_point (1/50)) calm_bars 5"
    by (rule run_loop_agree) (simp_all add: spike_bars_def calm_bars_def)
  then show ?thesis by (simp only: calm_run_5)
qed

lemma spike_step_5:
  "bar_step all_inliers (grid_point (1/50)) spike_bars 5 short_5 = Inr spike_6"
proof (rule bar_step_eval[OF spike_candidates_5 spike_nth(1)])
  show "update_trend \<lparr>ordinal = 6, hour = 0\<rparr> rising_line falling_line True True short_5 = short_5"
    by (rule update_trend_retain) (simp_all add: short_5_def)
  show "trendline_price_at short_5 \<lparr>ordinal = 6, hour = 0\<rparr> = Some 10"
    by (simp add: line_defs short_5_def)
  show "trade_step (touch_tolerance (grid_point (1/50))) \<lparr>ordinal = 6, hour = 0\<rparr> 30
          (Some 10) short_5 = spike_6"
    by (simp add: tol_grid_point trade_defs short_5_def spike_6_def)
qed (simp add: calm_length spike_length)

lemma spike_run_6: "run_loop all_inliers (grid_point (1/50)) spike_bars 6 = Inr spike_6"
  by (rule run_loop_next[OF spike_run_5 spike_step_5]) simp

lemma spike_step_6:
  "bar_step all_inliers (grid_point (1/50)) spike_bars 6 spike_6 = Inr spike_7"
proof (rule bar_step_eval[OF spike_candidates_6 spike_nth(2)])
  show "update_trend \<lparr>ordinal = 7, hour = 0\<rparr> rising_line
          \<lparr>slope = 9/2, intercept = Some (- 1/3), model = Some (9/2, - 1/3),
           used_points = [1, 3, 5]\<rparr> True False spike_6 = armed_spike"
    by (simp add: update_trend_def spike_6_def armed_spike_def Let_def)
  show "trendline_price_at armed_spike \<lparr>ordinal = 7, hour = 0\<rparr> = Some (54/5)"
    by (simp add: line_defs armed_spike_def)
  show "trade_step (touch_tolerance (grid_point (1/50))) \<lparr>ordinal = 7, hour = 0\<rparr> 11
          (Some (54/5)) armed_spike = spike_7"
    by (simp add: tol_grid_point trade_defs armed_spike_def spike_7_def)
qed (simp add: calm_length spike_length)

lemma spike_run_7: "run_loop all_inliers (grid_point (1/50)) spike_bars 7 = Inr spike_7"
  by (rule run_loop_next[OF spike_run_6 spike_step_6]) simp

lemma calm_positive: "\<forall>b \<in> set calm_bars. 0 < Close b"
  by (simp add: calm_bars_def bar_at_def)

lemma spike_backtest:
  "backtest_trendline_strategy all_inliers spike_bars (grid_point (1/50))
     = Inr (equity spike_7, trades spike_7, active_trend_info spike_7, trend_switches spike_7)"
  by (simp add: backtest_trendline_strategy_def spike_length spike_run_7) (simp add: spike_7_def)

lemma calm_backtest:
  "backtest_trendline_strategy all_inliers calm_bars (grid_point (1/50))
     = Inr (equity calm_7, trades calm_7, active_trend_info calm_7, trend_switches calm_7)"
  by (simp add: backtest_trendline_strategy_def calm_length calm_run_7) (simp add: calm_7_def)

lemma watch_backtest:
  "backtest_trendline_strategy all_inliers calm_bars (grid_point (1/200))
     = Inr (equity watch_7, trades watch_7, active_trend_info watch_7, trend_switches watch_7)"
  by (simp add: backtest_trendline_strategy_def calm_length watch_run_7) (simp add: watch_7_def)

lemma watch_combo:
  "run_backtest_combo all_inliers (grid_point (1/200)) calm_bars
     = Inr (grid_point (1/200), NegInf, 100000)"
  by (simp add: run_backtest_combo_def watch_backtest) (simp add: watch_7_def median_pnl_of_def)

lemma calm_combo:
  "run_backtest_combo all_inliers (grid_point (1/50)) calm_bars
     = Inr (grid_point (1/50), Fin (- 25000/13), 1275000/13)"
  by (simp add: run_backtest_combo_def calm_backtest)
     (simp add: calm_7_def median_pnl_of_def median_def List.map_filter_simps)


lemma calm_step_0:
  "bar_step all_inliers (grid_point tol) calm_bars 0 (idle []) = Inr (idle [100000])"
  by (rule idle_step[OF calm_candidates_0 calm_nth(1)]) (simp_all add: calm_length)

lemma below_seven:
  "k < 7 \<Longrightarrow> k = 0 \<or> k = 1 \<or> k = 2 \<or> k = 3 \<or> k = 4 \<or> k = 5 \<or> k = (6::nat)"
  by arith

lemma short_exits_below_within:
  assumes "short_exits_below regs p df"
  shows "short_exits_within regs p df"
  unfolding short_exits_within_def
proof (intro allI impI)
  fix k assume "k < length df"
  with assms have "case run_loop regs p df k of
          Inl _ \<Rightarrow> True
        | Inr s \<Rightarrow>
            (case bar_step regs p df k s of
               Inl _ \<Rightarrow> True
             | Inr s' \<Rightarrow>
                 position s = - 1 \<and> position s' = 0 \<longrightarrow> Close (df ! k) < 2 * entry_price s)"
    unfolding short_exits_below_def by blast
  then show "case run_loop regs p df k of
          Inl _ \<Rightarrow> True
        | Inr s \<Rightarrow>
            (case bar_step regs p df k s of
               Inl _ \<Rightarrow> True
             | Inr s' \<Rightarrow>
                 position s = - 1 \<and> position s' = 0 \<longrightarrow> Close (df ! k) \<le> 2 * entry_price s)"
    by (auto split: sum.splits)
qed

lemma exit_check_flat:
  assumes "run_loop regs p df k = Inr s" "position s \<noteq> - 1"
  shows "case run_loop regs p df k of
          Inl _ \<Rightarrow> True
        | Inr s \<Rightarrow>
            (case bar_step regs p df k s of
               Inl _ \<Rightarrow> True
             | Inr s' \<Rightarrow> position s = - 1 \<and> position s' = 0 \<longrightarrow> Q s)"
  using assms by (simp split: sum.splits)

lemma exit_check_cover:
  assumes "run_loop regs p df k = Inr s" "Q s"
  shows "case run_loop regs p df k of
          Inl _ \<Rightarrow> True
        | Inr s \<Rightarrow>
            (case bar_step regs p df k s of
               Inl _ \<Rightarrow> True
             | Inr s' \<Rightarrow> position s = - 1 \<and> position s' = 0 \<longrightarrow> Q s)"
  using assms by (simp split: sum.splits)

lemma idle_flat: "position (idle eq) \<noteq> - 1"
  by (simp add: idle_def init_state_def)

lemma calm_exits_below: "short_exits_below all_inliers (grid_point (1/50)) calm_bars"
  unfolding short_exits_below_def calm_length
proof (intro allI impI)
  fix k :: nat
  assume "k < 7"
  then consider "k = 0" | "k = 1" | "k = 2" | "k = 3" | "k = 4" | "k = 5" | "k = 6"
    using below_seven by blast
  then show "case run_loop all_inliers (grid_point (1/50)) calm_bars k of
          Inl _ \<Rightarrow> True
        | Inr s \<Rightarrow>
            (case bar_step all_inliers (grid_point (1/50)) calm_bars k s of
               Inl _ \<Rightarrow> True
             | Inr s' \<Rightarrow>
                 position s = - 1 \<and> position s' = 0
                   \<longrightarrow> Close (calm_bars ! k) < 2 * entry_price s)"
  proof cases
    case 1
    show ?thesis unfolding 1 by (rule exit_check_flat[OF calm_run_0 idle_flat])
  next
    case 2
    show ?thesis unfolding 2 by (rule exit_check_flat[OF calm_run_1 idle_flat])
  next
    case 3
    show ?thesis unfolding 3 by (rule exit_check_flat[OF calm_run_2 idle_flat])
  next
    case 4
    show ?thesis unfolding 4 by (rule exit_check_flat[OF calm_run_3 idle_flat])
  next
    case 5
    show ?thesis unfolding 5 by (rule exit_check_flat[OF calm_run_4 idle_flat])
  next
    case 6
    show ?thesis unfolding 6
      by (rule exit_check_cover[OF calm_run_5]) (simp add: calm_nth bar_at_def short_5_def)
  next
    case 7
    show ?thesis unfolding 7
      by (rule exit_check_flat[OF calm_run_6]) (simp add: calm_6_def)
  qed
qed


section \<open>The claims on the concrete runs\<close>

text \<open>
  Claim C1 as stated fails.  All closes of the spike bars are strictly positive; the short
  opened at 52/5 is covered at 30, and the equity after that bar is negative.
\<close>

theorem equity_negative_counterexample:
  "map Close spike_bars = [10, 12, 10, 11, 52/5, 30, 11]
   \<and> backtest_trendline_strategy all_inliers spike_bars (grid_point (1/50))
       = Inr (equity spike_7, trades spike_7, active_trend_info spike_7, trend_switches spike_7)
   \<and> equity spike_7
       = [100000, 100000, 100000, 100000, 100000, - 1150000/13, - 1150000/13]"
  using spike_prices spike_backtest by (simp add: spike_7_def)

text \<open>
  Claim C7 as stated fails.  On the spike bars the cash left by the covered short is
  negative, and the long opened on the next bar has that cash as its notional.
\<close>

theorem negative_notional_counterexample:
  "run_loop all_inliers (grid_point (1/50)) spike_bars 7 = Inr spike_7
   \<and> position spike_7 = 1 \<and> position_size spike_7 = - 1150000/13"
  using spike_run_7 by (simp add: spike_7_def)

text \<open>
  Claim C5 as stated fails.  A window of three prices is shorter than \<open>2 * 5 + 1\<close>, and
  with order 5 its middle price is returned as a peak.
\<close>

theorem short_window_counterexample:
  "length [1, 3, 1 :: real] < nat (2 * 5 + 1)
   \<and> detect_local_extrema [1, 3, 1] 5 0 = Inr ([], [1])"
  by code_simp

text \<open>
  Claim C2 as stated fails.  On the calm bars the combination with tolerance 1/200 opens a
  short on the last bar and records no exit; its median is minus infinity and it wins the
  best-by-final-equity leaderboard of a grid of two.
\<close>

theorem equity_leader_counterexample:
  "run_backtest_combo all_inliers (grid_point (1/200)) calm_bars
     = Inr (grid_point (1/200), NegInf, 100000)
   \<and> grid_search same_draws calm_bars [grid_point (1/200), grid_point (1/50)]
     = Inr \<lparr>best_median = Some (Fin (- 25000/13)), best_median_params = Some (grid_point (1/50)),
            best_equity = Some 100000, best_equity_params = Some (grid_point (1/200)),
            best_median_val = Fin (- 25000/13), best_equity_val = Fin 100000\<rparr>"
  by (simp add: grid_search_def same_draws_def watch_combo calm_combo find_best_def
      rank_step_def init_board_def)

text \<open>
  Claim C6 (single-combination sweep).  A grid of one combination must return it as the
  winner of both leaderboards.  On the calm bars the grid that holds only the combination
  with tolerance 1/200 has no best-by-median winner, and printing the winner raises
  TypeError.
\<close>

theorem single_combo_no_median_winner:
  "run_backtest_combo all_inliers (grid_point (1/200)) calm_bars
     = Inr (grid_point (1/200), NegInf, 100000)
   \<and> best_median_params (find_best [(grid_point (1/200), NegInf, 100000)]) = None
   \<and> grid_search same_draws calm_bars [grid_point (1/200)] = Inl TypeError"
  by (simp add: grid_search_def same_draws_def watch_combo find_best_def
      rank_step_def init_board_def)

text \<open>The hypotheses of the amended claim C1 hold on the calm bars.\<close>

theorem equity_nonnegative_witness:
  "list_all (\<lambda>b. 0 < Close b) calm_bars
   \<and> short_exits_within all_inliers (grid_point (1/50)) calm_bars
   \<and> backtest_trendline_strategy all_inliers calm_bars (grid_point (1/50))
       = Inr (equity calm_7, trades calm_7, active_trend_info calm_7, trend_switches calm_7)
   \<and> list_all (\<lambda>e. 0 \<le> e) (equity calm_7)"
proof -
  have p: "list_all (\<lambda>b. 0 < Close b) calm_bars"
    using calm_positive by (simp only: list_all_iff)
  have w: "short_exits_within all_inliers (grid_point (1/50)) calm_bars"
    using calm_exits_below by (rule short_exits_below_within)
  have "\<forall>e \<in> set (equity calm_7). 0 \<le> e"
    by (rule equity_nonnegative[OF calm_positive w calm_backtest])
  then have c: "list_all (\<lambda>e. 0 \<le> e) (equity calm_7)"
    by (simp only: list_all_iff)
  show ?thesis by (rule conjI[OF p conjI[OF w conjI[OF calm_backtest c]]])
qed

text \<open>The hypotheses of the amended claim C7 hold on the calm bars, after bars 6 and 5.\<close>

theorem one_position_invariant_witness:
  "7 \<le> length calm_bars
   \<and> run_loop all_inliers (grid_point (1/50)) calm_bars 7 = Inr calm_7
   \<and> list_all (\<lambda>b. 0 < Close b) calm_bars
   \<and> short_exits_below all_inliers (grid_point (1/50)) calm_bars
   \<and> position calm_7 \<noteq> 0 \<and> 0 < position_size calm_7
   \<and> 6 \<le> length calm_bars
   \<and> run_loop all_inliers (grid_point (1/50)) calm_bars 6 = Inr calm_6
   \<and> bar_step all_inliers (grid_point (1/50)) calm_bars 6 calm_6 = Inr calm_7
   \<and> trades calm_7 = trades calm_6 @ [last (trades calm_7)]
   \<and> (t_type (last (trades calm_7)) = buy \<or> t_type (last (trades calm_7)) = sell_short)
   \<and> position calm_6 = 0 \<and> position_size calm_6 = 0"
proof -
  have l7: "7 \<le> length calm_bars" and l6: "6 \<le> length calm_bars" by (simp_all add: calm_length)
  have p: "list_all (\<lambda>b. 0 < Close b) calm_bars"
    using calm_positive by (simp only: list_all_iff)
  have open7: "position calm_7 \<noteq> 0" by (simp add: calm_7_def)
  have tr: "trades calm_7 = trades calm_6 @ [last (trades calm_7)]"
    and ty: "t_type (last (trades calm_7)) = buy \<or> t_type (last (trades calm_7)) = sell_short"
    by (simp_all add: calm_7_def calm_6_def)
  note inv7 = one_position_invariant[OF l7 calm_run_7]
  note inv6 = one_position_invariant[OF l6 calm_run_6]
  have a: "0 < position_size calm_7"
    by (rule inv7[THEN conjunct2, THEN conjunct1, THEN mp, OF calm_positive, THEN mp,
          OF calm_exits_below, THEN mp, OF open7])
  have b: "position calm_6 = 0"
    by (rule inv6[THEN conjunct2, THEN conjunct2, THEN spec, THEN spec, THEN mp, OF calm_step_6,
          THEN mp, OF tr, THEN mp, OF ty])
  have c: "position_size calm_6 = 0"
    by (rule inv6[THEN conjunct1, THEN mp, OF b])
  show ?thesis by (rule conjI[OF l7 conjI[OF calm_run_7 conjI[OF p conjI[OF calm_exits_below conjI[OF open7 conjI[OF a conjI[OF l6 conjI[OF calm_run_6 conjI[OF calm_step_6 conjI[OF tr conjI[OF ty conjI[OF b c]]]]]]]]]]]])
qed

text \<open>The hypotheses of claim C3 hold at bar 5 of the calm bars, where both candidates qualify.\<close>

theorem hysteresis_retention_witness:
  "run_loop all_inliers (grid_point (1/50)) calm_bars 5 = Inr short_5
   \<and> trend_candidates all_inliers (grid_point (1/50)) calm_bars 5
       = Inr (rising_line, falling_line, True, True)
   \<and> 5 < length calm_bars
   \<and> (\<exists>s'. run_loop all_inliers (grid_point (1/50)) calm_bars (Suc 5) = Inr s'
            \<and> active_trend s' = active_trend short_5
            \<and> active_trend_info s' = active_trend_info short_5)"
proof -
  have l5: "5 < length calm_bars" by (simp add: calm_length)
  show ?thesis
    by (rule conjI[OF calm_run_5 conjI[OF calm_candidates_5 conjI[OF l5
          hysteresis_retention[OF calm_run_5 calm_candidates_5 refl l5]]]])
qed


text \<open>The hypotheses of claim C4 hold for bars 4 and 6 of the calm bars.\<close>

theorem never_back_to_flat_witness:
  "(4::nat) < 6
   \<and> run_loop all_inliers (grid_point (1/50)) calm_bars (Suc 4) = Inr short_5
   \<and> run_loop all_inliers (grid_point (1/50)) calm_bars (Suc 6) = Inr calm_7
   \<and> (active_trend short_5 = Some Uptrend \<or> active_trend short_5 = Some Downtrend)
   \<and> (active_trend calm_7 = Some Uptrend \<or> active_trend calm_7 = Some Downtrend)"
proof -
  have i: "(4::nat) < 6" by simp
  have r5: "run_loop all_inliers (grid_point (1/50)) calm_bars (Suc 4) = Inr short_5"
    by (rule run_loop_next[OF calm_run_4 calm_step_4]) simp
  have r7: "run_loop all_inliers (grid_point (1/50)) calm_bars (Suc 6) = Inr calm_7"
    by (rule run_loop_next[OF calm_run_6 calm_step_6]) simp
  have t: "active_trend short_5 = Some Uptrend \<or> active_trend short_5 = Some Downtrend"
    by (simp add: short_5_def)
  show ?thesis by (rule conjI[OF i conjI[OF r5 conjI[OF r7 conjI[OF t never_back_to_flat[OF i r5 r7 t]]]]])
qed

text \<open>The hypotheses of claim C8 hold at the first bar of the calm bars.\<close>

theorem touch_predicate_witness:
  "is_touching_line (52/5) (Some (21/2)) (1/50)
   \<and> bar_step all_inliers (grid_point (1/50)) calm_bars 0 (idle []) = Inr (idle [100000])
   \<and> model (active_trend_info (idle [100000])) = None
   \<and> position (idle []) = 0
   \<and> position (idle [100000]) = 0 \<and> trades (idle [100000]) = trades (idle [])"
proof -
  have a: "\<exists>l. Some (21/2 :: real) = Some l \<and> \<bar>52/5 - l\<bar> \<le> 1/50 * l"
    by (rule exI[of _ "21/2"]) simp
  have m: "model (active_trend_info (idle [100000])) = None"
    and f: "position (idle []) = 0"
    by (simp_all add: idle_def init_state_def no_trendline_def)
  note tp = touch_predicate[of "52/5" "Some (21/2)" "1/50" all_inliers "grid_point (1/50)"
      calm_bars 0 "idle []" "idle [100000]"]
  have t: "is_touching_line (52/5) (Some (21/2)) (1/50)"
    by (rule tp[THEN conjunct1, THEN iffD2, OF a])
  have n: "position (idle [100000]) = 0 \<and> trades (idle [100000]) = trades (idle [])"
    by (rule tp[THEN conjunct2, THEN mp, OF calm_step_0, THEN mp, OF m, THEN mp, OF f])
  show ?thesis by (rule conjI[OF t conjI[OF calm_step_0 conjI[OF m conjI[OF f n]]]])
qed

text \<open>The hypotheses of claim C9 hold for the calm and the spike bars, which agree on bars 0 to 4.\<close>

theorem strict_causality_witness:
  "take (Suc 4) calm_bars = take (Suc 4) spike_bars
   \<and> 4 < length calm_bars \<and> 4 < length spike_bars
   \<and> run_loop all_inliers (grid_point (1/50)) calm_bars (Suc 4)
       = run_loop all_inliers (grid_point (1/50)) spike_bars (Suc 4)
   \<and> run_loop all_inliers (grid_point (1/50)) calm_bars 3
       = run_loop all_inliers (grid_point (1/50)) spike_bars 3"
proof -
  have a: "take (Suc 4) calm_bars = take (Suc 4) spike_bars"
    by (simp add: calm_bars_def spike_bars_def)
  have b: "4 < length calm_bars" and c: "4 < length spike_bars"
    by (simp_all add: calm_length spike_length)
  note sc = strict_causality[OF a b c, of all_inliers "grid_point (1/50)"]
  have d: "run_loop all_inliers (grid_point (1/50)) calm_bars (Suc 4)
       = run_loop all_inliers (grid_point (1/50)) spike_bars (Suc 4)"
    by (rule sc[THEN spec, THEN mp]) (rule le_refl)
  have e: "run_loop all_inliers (grid_point (1/50)) calm_bars 3
       = run_loop all_inliers (grid_point (1/50)) spike_bars 3"
    by (rule sc[THEN spec, THEN mp]) simp
  show ?thesis by (rule conjI[OF a conjI[OF b conjI[OF c conjI[OF d e]]]])
qed

text \<open>The hypothesis of claim C10 holds at bar 4 of the calm bars, where a short is opened.\<close>

theorem one_action_per_bar_witness:
  "bar_step all_inliers (grid_point (1/50)) calm_bars 4 (idle [100000, 100000, 100000, 100000])
     = Inr short_5
   \<and> ((trades short_5 = trades (idle [100000, 100000, 100000, 100000])
         \<and> position short_5 = position (idle [100000, 100000, 100000, 100000]))
      \<or> (\<exists>t. trades short_5 = trades (idle [100000, 100000, 100000, 100000]) @ [t]
            \<and> ((position (idle [100000, 100000, 100000, 100000]) = 0 \<and> position short_5 \<noteq> 0
                  \<and> (t_type t = buy \<or> t_type t = sell_short))
               \<or> (position (idle [100000, 100000, 100000, 100000]) \<noteq> 0 \<and> position short_5 = 0
                  \<and> (t_type t = exit_long \<or> t_type t = exit_short)))))"
  by (rule conjI[OF calm_step_4 one_action_per_bar[OF calm_step_4]])

text \<open>The hypotheses of the amended claim C5 hold for a window of two prices.\<close>

theorem short_window_no_extrema_witness:
  "length [1, 3 :: real] < 3 \<and> (1::int) \<le> 5
   \<and> detect_local_extrema [1, 3] 5 0 = Inr ([], [])"
proof -
  have a: "length [1, 3 :: real] < 3" and b: "(1::int) \<le> 5" by simp_all
  show ?thesis by (rule conjI[OF a conjI[OF b short_window_no_extrema[OF a b]]])
qed

text \<open>The hypotheses of the amended claim C2 hold for the combination with tolerance 1/200.\<close>

theorem no_exit_loses_median_board_witness:
  "backtest_trendline_strategy all_inliers calm_bars (grid_point (1/200))
     = Inr (equity watch_7, trades watch_7, active_trend_info watch_7, trend_switches watch_7)
   \<and> list_all (\<lambda>t. t_pnl t = None) (trades watch_7)
   \<and> run_backtest_combo all_inliers (grid_point (1/200)) calm_bars
       = Inr (grid_point (1/200), NegInf, last (equity watch_7))
   \<and> (\<forall>m e. (grid_point (1/200), Fin m, e)
         \<notin> set [(grid_point (1/200), NegInf, 100000 :: real),
                 (grid_point (1/50), Fin (- 25000/13), 1275000/13)])
   \<and> best_median_params (find_best [(grid_point (1/200), NegInf, 100000 :: real),
                                      (grid_point (1/50), Fin (- 25000/13), 1275000/13)])
       \<noteq> Some (grid_point (1/200))"
proof -
  have a: "\<forall>t \<in> set (trades watch_7). t_pnl t = None" by (simp add: watch_7_def)
  then have a': "list_all (\<lambda>t. t_pnl t = None) (trades watch_7)" by (simp only: list_all_iff)
  have b: "\<forall>m e. (grid_point (1/200), Fin m, e)
         \<notin> set [(grid_point (1/200), NegInf, 100000 :: real),
                 (grid_point (1/50), Fin (- 25000/13), 1275000/13)]"
    by (simp add: grid_point_def)
  note t = no_exit_loses_median_board[OF watch_backtest a]
  have r: "run_backtest_combo all_inliers (grid_point (1/200)) calm_bars
       = Inr (grid_point (1/200), NegInf, last (equity watch_7))"
    by (rule t[THEN conjunct1])
  have n: "best_median_params (find_best [(grid_point (1/200), NegInf, 100000 :: real),
                                      (grid_point (1/50), Fin (- 25000/13), 1275000/13)])
       \<noteq> Some (grid_point (1/200))"
    by (rule t[THEN conjunct2, THEN spec, THEN mp, OF b])
  show ?thesis by (rule conjI[OF watch_backtest conjI[OF a' conjI[OF r conjI[OF b n]]]])
qed

end
